theory Spec2Isabelle
  imports Complex_Main "HOL-Library.Word"
begin

section \<open>Data model\<close>

text \<open>
  A shallow embedding of \<^verbatim>\<open>analytics.py\<close> (class \<^verbatim>\<open>HolderCountAnalyzer\<close>) and of the
  two coroutines \<^verbatim>\<open>monitorTokenCreation\<close> and \<^verbatim>\<open>analyser\<close> of \<^verbatim>\<open>trade.py\<close>.

  A \<^verbatim>\<open>Pubkey\<close> is represented by its base58 string, so \<^verbatim>\<open>str(pubkey)\<close> is the
  string itself. Percentages are Python floats that are only ever compared with
  integer thresholds; every finite float is a rational number and Python compares a
  float with an int exactly, so the field is a \<^typ>\<open>rat\<close>. The floating-point
  arithmetic that produces a percentage and the base58 encoder of the \<^verbatim>\<open>solders\<close>
  library are parameters of the model (record \<open>library\<close>).
\<close>

record holder =
  rank :: nat
  address :: string
  amount :: int
  percentage :: rat
  is_dev :: bool

record analyzer =
  dev_wallet_pubkey :: "string option"
  bonding_curve_pubkey :: "string option"

record library =
  b58encode :: "8 word list \<Rightarrow> string"
  percentage_of :: "int \<Rightarrow> rat"

text \<open>\<^verbatim>\<open>str(None)\<close> is the string \<^verbatim>\<open>None\<close>.\<close>

definition pubkey_str :: "string option \<Rightarrow> string" where
  "pubkey_str k = (case k of None \<Rightarrow> ''None'' | Some s \<Rightarrow> s)"

text \<open>
  \<^verbatim>\<open>__init__\<close>: an absent or empty address gives \<^verbatim>\<open>None\<close>. The addresses of a launch
  event are taken to be well-formed, so that \<^verbatim>\<open>Pubkey.from_string\<close> does not raise.
\<close>

definition HolderCountAnalyzer :: "string option \<Rightarrow> string option \<Rightarrow> analyzer" where
  "HolderCountAnalyzer dev_wallet bonding_curve =
     \<lparr>dev_wallet_pubkey = (if dev_wallet = None \<or> dev_wallet = Some [] then None else dev_wallet),
      bonding_curve_pubkey =
        (if bonding_curve = None \<or> bonding_curve = Some [] then None else bonding_curve)\<rparr>"

definition SPL_TOKEN_PROGRAM_ID :: string where
  "SPL_TOKEN_PROGRAM_ID = ''TokenkegQfeZyiNwAJbNbGKPFXCWuBvf9Ss623VQ5DA''"

definition CONVERT_TO_OWNER_WALLET_ADDRESSES :: bool where
  "CONVERT_TO_OWNER_WALLET_ADDRESSES = True"

definition total_supply :: int where
  "total_supply = 1000000000000000"

subsection \<open>Responses of the external services\<close>

text \<open>
  One entry of a \<^verbatim>\<open>getTokenAccounts\<close> page: the token account and the wallet owning it.
\<close>

record token_account =
  account :: string
  owner :: string

text \<open>
  The answer to one page request. \<open>Page_raises\<close> stands for every way lines 47 to 62
  raise: \<^verbatim>\<open>requests.post\<close> fails, the body is not JSON, or the \<^verbatim>\<open>result\<close> object has
  no \<^verbatim>\<open>token_accounts\<close> list. \<open>Page_no_result\<close> is a JSON object without the key
  \<^verbatim>\<open>result\<close>.
\<close>

datatype page = Page_raises | Page_no_result | Page_accounts "token_account list"

datatype error = Page_error

text \<open>
  \<^verbatim>\<open>get_token_largest_accounts\<close>: entries in descending balance, as delivered. The
  amount is the integer that \<^verbatim>\<open>int(account.amount.amount)\<close> yields.
\<close>

record largest_account =
  la_address :: string
  la_amount :: int

datatype largest_response =
  Largest_raises | Largest_none | Largest_value "largest_account list"

text \<open>\<^verbatim>\<open>get_account_info\<close>: the declared owning program and the raw data.\<close>

datatype account_data = Data_bytes "8 word list" | Data_other

datatype info_response = Info_raises | Info_none | Info_value string account_data

subsection \<open>The trace\<close>

text \<open>
  What a decision cycle does besides returning a value is recorded in a trace: every
  page request sent to the holder-accounts endpoint and every line printed by
  \<^verbatim>\<open>get_holder_count\<close>, \<^verbatim>\<open>display_top_holders\<close>, the four \<^verbatim>\<open>check_\<close> methods and
  \<^verbatim>\<open>make_decision\<close>, in program order. The lines printed while the snapshot is
  fetched come from concurrently running lookups, have no fixed order and are not
  part of the trace. The comment after each constructor is the source line.
\<close>

datatype event =
    At_second int                  \<comment> \<open>301\<close>
  | No_top_holders_skipping        \<comment> \<open>304\<close>
  | No_top_holders                 \<comment> \<open>233, 263, 276\<close>
  | Page_request nat               \<comment> \<open>47, with the page number sent\<close>
  | No_more_results nat            \<comment> \<open>63\<close>
  | Processing_page nat            \<comment> \<open>66\<close>
  | Total_unique_holders nat       \<comment> \<open>236\<close>
  | Holder_table nat "holder list" \<comment> \<open>238 to 249\<close>
  | Within_time_limit int          \<comment> \<open>289\<close>
  | Time_limit_exceeded int        \<comment> \<open>291\<close>
  | Count_exceeds int              \<comment> \<open>255\<close>
  | Count_below int                \<comment> \<open>257\<close>
  | Dev_still_holds int            \<comment> \<open>268\<close>
  | Dev_sold                       \<comment> \<open>270\<close>
  | Lp_meets int int               \<comment> \<open>281\<close>
  | Lp_not_met int int             \<comment> \<open>283\<close>
  | All_conditions_met             \<comment> \<open>313\<close>
  | Special_conditions_met         \<comment> \<open>318, 319\<close>
  | Conditions_not_met             \<comment> \<open>322\<close>
  | No_holders_left_exiting        \<comment> \<open>328\<close>
  | Time_exceeded_exiting          \<comment> \<open>333\<close>
  | Exception_in_make_decision error \<comment> \<open>338\<close>

text \<open>The page numbers requested, in order.\<close>

fun requested :: "event list \<Rightarrow> nat list" where
  "requested [] = []"
| "requested (Page_request p # tr) = p # requested tr"
| "requested (e # tr) = requested tr"

section \<open>OwnerSetResolver: \<^verbatim>\<open>get_holder_count\<close>\<close>

text \<open>
  The inner \<^verbatim>\<open>for\<close> loop of lines 67 and 68 adds the owner of every account of the
  page to the set.
\<close>

definition add_owners :: "token_account list \<Rightarrow> string set \<Rightarrow> string set" where
  "add_owners accs all_owners = fold (\<lambda>a s. insert (owner a) s) accs all_owners"

text \<open>
  The \<^verbatim>\<open>while True\<close> loop of lines 46 to 70, with its state \<^verbatim>\<open>page\<close>, \<^verbatim>\<open>all_owners\<close>
  and the trace so far. The endpoint is a function from the page number to the answer.
  The loop has no bound: the result \<open>None\<close> means that it never leaves. An exception
  is not caught here; it is the result \<open>Inl\<close>.
\<close>

partial_function (option) pages_loop ::
  "(nat \<Rightarrow> page) \<Rightarrow> nat \<Rightarrow> string set \<Rightarrow> event list \<Rightarrow> ((error + nat) \<times> event list) option"
where
  "pages_loop pages pg all_owners tr =
     (case pages pg of
        Page_raises \<Rightarrow> Some (Inl Page_error, tr @ [Page_request pg])
      | Page_no_result \<Rightarrow>
          Some (Inr (card all_owners), tr @ [Page_request pg, No_more_results (pg - 1)])
      | Page_accounts accs \<Rightarrow>
          if length accs = 0
          then Some (Inr (card all_owners), tr @ [Page_request pg, No_more_results (pg - 1)])
          else pages_loop pages (pg + 1) (add_owners accs all_owners)
                 (tr @ [Page_request pg, Processing_page pg]))"

definition get_holder_count :: "(nat \<Rightarrow> page) \<Rightarrow> ((error + nat) \<times> event list) option" where
  "get_holder_count pages = pages_loop pages 1 {} []"

text \<open>
  Sequencing of steps that may raise or not return: the first exception or
  non-return ends the sequence, the traces are joined.
\<close>

definition and_then ::
  "((error + 'a) \<times> event list) option \<Rightarrow> ('a \<Rightarrow> ((error + 'b) \<times> event list) option)
     \<Rightarrow> ((error + 'b) \<times> event list) option" where
  "and_then m f =
     (case m of
        None \<Rightarrow> None
      | Some (Inl e, tr) \<Rightarrow> Some (Inl e, tr)
      | Some (Inr x, tr) \<Rightarrow>
          (case f x of None \<Rightarrow> None | Some (r, tr') \<Rightarrow> Some (r, tr @ tr')))"

definition returns :: "'a \<times> event list \<Rightarrow> ((error + 'a) \<times> event list) option" where
  "returns p = Some (Inr (fst p), snd p)"

section \<open>TopHolderRanker: \<^verbatim>\<open>get_owner_wallet\<close> and \<^verbatim>\<open>get_top_holders\<close>\<close>

text \<open>
  Lines 111 to 144. Every exception is caught and gives \<^verbatim>\<open>None\<close>. The slice
  \<^verbatim>\<open>account_data[32:64]\<close> is \<open>take 32 (drop 32 account_data)\<close>.
\<close>

definition get_owner_wallet :: "library \<Rightarrow> info_response \<Rightarrow> string option" where
  "get_owner_wallet L response =
     (case response of
        Info_raises \<Rightarrow> None
      | Info_none \<Rightarrow> None
      | Info_value program account_data \<Rightarrow>
          if program \<noteq> SPL_TOKEN_PROGRAM_ID then None
          else (case account_data of
                  Data_other \<Rightarrow> None
                | Data_bytes bs \<Rightarrow>
                    if length bs < 64 then None
                    else Some (b58encode L (take 32 (drop 32 bs)))))"

text \<open>
  Lines 190 to 204: the loop over \<^verbatim>\<open>enumerate(zip(accounts_to_process, owner_wallets), start=1)\<close>.
\<close>

fun compile_holders ::
  "library \<Rightarrow> analyzer \<Rightarrow> nat \<Rightarrow> (largest_account \<times> string option) list \<Rightarrow> holder list" where
  "compile_holders L self idx [] = []"
| "compile_holders L self idx ((acc, None) # rest) = compile_holders L self (idx + 1) rest"
| "compile_holders L self idx ((acc, Some owner_wallet) # rest) =
     \<lparr>rank = idx, address = owner_wallet, amount = la_amount acc,
      percentage = (if total_supply > 0 then percentage_of L (la_amount acc) else 0),
      is_dev = (dev_wallet_pubkey self \<noteq> None
                \<and> owner_wallet = pubkey_str (dev_wallet_pubkey self))\<rparr>
     # compile_holders L self (idx + 1) rest"

text \<open>Lines 206 to 217: the branch taken when the owners are not resolved.\<close>

fun compile_accounts :: "library \<Rightarrow> analyzer \<Rightarrow> nat \<Rightarrow> largest_account list \<Rightarrow> holder list" where
  "compile_accounts L self idx [] = []"
| "compile_accounts L self idx (acc # rest) =
     \<lparr>rank = idx, address = la_address acc, amount = la_amount acc,
      percentage = (if total_supply > 0 then percentage_of L (la_amount acc) else 0),
      is_dev = (dev_wallet_pubkey self \<noteq> None
                \<and> la_address acc = pubkey_str (dev_wallet_pubkey self))\<rparr>
     # compile_accounts L self (idx + 1) rest"

text \<open>
  Lines 157 to 222. \<^verbatim>\<open>asyncio.gather\<close> returns the owners in the order of the
  accounts; a lookup never raises, so the batch is never aborted.
\<close>

definition get_top_holders ::
  "library \<Rightarrow> analyzer \<Rightarrow> largest_response \<Rightarrow> (string \<Rightarrow> info_response) \<Rightarrow> nat \<Rightarrow> holder list" where
  "get_top_holders L self response info top_n =
     (case response of
        Largest_raises \<Rightarrow> []
      | Largest_none \<Rightarrow> []
      | Largest_value largest_accounts \<Rightarrow>
          if total_supply = 0 then []
          else (let accounts_to_process = take top_n largest_accounts in
                if CONVERT_TO_OWNER_WALLET_ADDRESSES
                then compile_holders L self 1
                       (zip accounts_to_process
                          (map (\<lambda>a. get_owner_wallet L (info (la_address a))) accounts_to_process))
                else compile_accounts L self 1 accounts_to_process))"

section \<open>ThresholdGateEvaluator\<close>

text \<open>Lines 224 to 249.\<close>

definition display_top_holders ::
  "(nat \<Rightarrow> page) \<Rightarrow> nat \<Rightarrow> holder list \<Rightarrow> ((error + unit) \<times> event list) option" where
  "display_top_holders pages top_n top_holders =
     (if top_holders = [] then Some (Inr (), [No_top_holders])
      else and_then (get_holder_count pages)
             (\<lambda>n. returns ((), [Total_unique_holders n, Holder_table top_n top_holders])))"

text \<open>Lines 252 to 258.\<close>

definition check_holder_count ::
  "(nat \<Rightarrow> page) \<Rightarrow> int \<Rightarrow> ((error + bool) \<times> event list) option" where
  "check_holder_count pages threshold =
     and_then (get_holder_count pages)
       (\<lambda>currentThreshold.
          if int currentThreshold \<ge> threshold then returns (True, [Count_exceeds threshold])
          else returns (False, [Count_below threshold]))"

text \<open>Lines 261 to 271: the guard on the empty snapshot, then the loop.\<close>

primrec dev_wallet_loop :: "string \<Rightarrow> int \<Rightarrow> holder list \<Rightarrow> bool \<times> event list" where
  "dev_wallet_loop dev threshold [] = (True, [Dev_sold])"
| "dev_wallet_loop dev threshold (h # hs) =
     (if address h = dev \<and> percentage h \<ge> of_int threshold
      then (False, [Dev_still_holds threshold])
      else dev_wallet_loop dev threshold hs)"

definition check_dev_wallet_sold :: "analyzer \<Rightarrow> int \<Rightarrow> holder list \<Rightarrow> bool \<times> event list" where
  "check_dev_wallet_sold self threshold top_holders =
     (if top_holders = [] then (False, [No_top_holders])
      else dev_wallet_loop (pubkey_str (dev_wallet_pubkey self)) threshold top_holders)"

text \<open>Lines 274 to 284.\<close>

primrec lp_liquidity_loop :: "string \<Rightarrow> int \<Rightarrow> int \<Rightarrow> holder list \<Rightarrow> bool \<times> event list" where
  "lp_liquidity_loop bc thresholdLower thresholdUpper [] =
     (False, [Lp_not_met thresholdLower thresholdUpper])"
| "lp_liquidity_loop bc thresholdLower thresholdUpper (h # hs) =
     (if address h = bc \<and> percentage h \<le> of_int thresholdUpper
         \<and> percentage h > of_int thresholdLower
      then (True, [Lp_meets thresholdLower thresholdUpper])
      else lp_liquidity_loop bc thresholdLower thresholdUpper hs)"

definition check_lp_liquidity ::
  "analyzer \<Rightarrow> int \<Rightarrow> int \<Rightarrow> holder list \<Rightarrow> bool \<times> event list" where
  "check_lp_liquidity self thresholdLower thresholdUpper top_holders =
     (if top_holders = [] then (False, [No_top_holders])
      else lp_liquidity_loop (pubkey_str (bonding_curve_pubkey self))
             thresholdLower thresholdUpper top_holders)"

text \<open>Lines 287 to 292; \<open>now\<close> is the value of \<^verbatim>\<open>int(time.time())\<close> read there.\<close>

definition check_time_limit :: "int \<Rightarrow> int \<Rightarrow> int \<Rightarrow> bool \<times> event list" where
  "check_time_limit now startEpochTime timeLimit =
     (if now - startEpochTime \<le> timeLimit then (True, [Within_time_limit timeLimit])
      else (False, [Time_limit_exceeded timeLimit]))"

text \<open>Lines 325 to 329: is some record of the bonding curve at 99 percent or more.\<close>

primrec bonding_curve_loop :: "string \<Rightarrow> holder list \<Rightarrow> bool" where
  "bonding_curve_loop bc [] = False"
| "bonding_curve_loop bc (h # hs) =
     (if address h = bc then (if percentage h \<ge> 99 then True else bonding_curve_loop bc hs)
      else bonding_curve_loop bc hs)"

section \<open>DecisionEngine: \<^verbatim>\<open>make_decision\<close>\<close>

text \<open>
  What the outside world answers during one call of \<^verbatim>\<open>make_decision\<close>, in the order
  in which the call asks: the clock at line 301, the largest accounts and the account
  records behind them, the holder pages listed for \<^verbatim>\<open>display_top_holders\<close>, the
  clock at line 288, the holder pages listed for the holder-count gate at line 308 and
  the holder pages listed for the second holder-count gate at line 317. Each listing
  starts again at page 1 and may be answered differently.
\<close>

record iteration_env =
  now_print :: int
  largest :: largest_response
  account_info :: "string \<Rightarrow> info_response"
  pages_display :: "nat \<Rightarrow> page"
  now_check :: int
  pages_gate :: "nat \<Rightarrow> page"
  pages_relaxed :: "nat \<Rightarrow> page"

text \<open>
  The condition of the \<^verbatim>\<open>elif\<close> at line 317. Python's \<^verbatim>\<open>and\<close> evaluates from the left
  and stops at the first false operand, so the liquidity gate is evaluated only after
  the holder-count gate has passed.
\<close>

definition special_conditions ::
  "analyzer \<Rightarrow> iteration_env \<Rightarrow> holder list \<Rightarrow> bool \<Rightarrow> bool \<Rightarrow> ((error + bool) \<times> event list) option" where
  "special_conditions self env top_holders time_met dev_wallet_sold =
     and_then (check_holder_count (pages_relaxed env) 60)
       (\<lambda>count_met.
          if \<not> count_met then returns (False, [])
          else and_then (returns (check_lp_liquidity self 60 80 top_holders))
                 (\<lambda>lp_met. returns (lp_met \<and> time_met \<and> \<not> dev_wallet_sold, [])))"

text \<open>Lines 325 to 336: the forced exits and the final \<^verbatim>\<open>return True\<close>.\<close>

definition forced_exits :: "analyzer \<Rightarrow> holder list \<Rightarrow> bool \<Rightarrow> bool \<times> event list" where
  "forced_exits self top_holders time_met =
     (if bonding_curve_loop (pubkey_str (bonding_curve_pubkey self)) top_holders
      then (False, [No_holders_left_exiting])
      else if \<not> time_met then (False, [Time_exceeded_exiting])
      else (True, []))"

text \<open>Lines 306 to 336, the part of the \<^verbatim>\<open>try\<close> block after the guard of line 303.\<close>

definition decision_body ::
  "analyzer \<Rightarrow> iteration_env \<Rightarrow> holder list \<Rightarrow> int \<Rightarrow> int \<Rightarrow> int \<Rightarrow> int \<Rightarrow> int \<Rightarrow> int
     \<Rightarrow> ((error + bool) \<times> event list) option" where
  "decision_body self env top_holders holder_threshold dev_threshold lp_threshold_lower
       lp_threshold_upper startEpochTime timeLimit =
     and_then (display_top_holders (pages_display env) 20 top_holders) (\<lambda>_.
     and_then (returns (check_time_limit (now_check env) startEpochTime timeLimit)) (\<lambda>time_met.
     and_then (check_holder_count (pages_gate env) holder_threshold) (\<lambda>holder_count_met.
     and_then (returns (check_dev_wallet_sold self dev_threshold top_holders)) (\<lambda>dev_wallet_sold.
     and_then (returns (check_lp_liquidity self lp_threshold_lower lp_threshold_upper top_holders))
       (\<lambda>lp_liquidity_met.
          if holder_count_met \<and> dev_wallet_sold \<and> lp_liquidity_met \<and> time_met
          then returns (False, [All_conditions_met])
          else and_then (special_conditions self env top_holders time_met dev_wallet_sold)
                 (\<lambda>special.
                    if special then returns (False, [Special_conditions_met])
                    else and_then (returns ((), [Conditions_not_met]))
                           (\<lambda>_. returns (forced_exits self top_holders time_met))))))))"

text \<open>
  Lines 299 to 338. The value is what the coroutine returns and the trace: \<open>Some True\<close>
  and \<open>Some False\<close> are Python's \<^verbatim>\<open>True\<close> and \<^verbatim>\<open>False\<close>, and the inner \<open>None\<close> is
  Python's \<^verbatim>\<open>None\<close>, returned when the handler of line 337 has swallowed an
  exception. The outer \<open>None\<close> means that the call never returns.
\<close>

definition make_decision ::
  "library \<Rightarrow> analyzer \<Rightarrow> iteration_env \<Rightarrow> int \<Rightarrow> int \<Rightarrow> int \<Rightarrow> int \<Rightarrow> int \<Rightarrow> int
     \<Rightarrow> (bool option \<times> event list) option" where
  "make_decision L self env holder_threshold dev_threshold lp_threshold_lower
       lp_threshold_upper startEpochTime timeLimit =
     (let top_holders = get_top_holders L self (largest env) (account_info env) 20 in
      if top_holders = []
      then Some (Some True, [At_second (now_print env - startEpochTime), No_top_holders_skipping])
      else (case decision_body self env top_holders holder_threshold dev_threshold
                   lp_threshold_lower lp_threshold_upper startEpochTime timeLimit of
              None \<Rightarrow> None
            | Some (Inl e, tr) \<Rightarrow>
                Some (None, At_second (now_print env - startEpochTime) # tr
                              @ [Exception_in_make_decision e])
            | Some (Inr proceed, tr) \<Rightarrow>
                Some (Some proceed, At_second (now_print env - startEpochTime) # tr)))"

section \<open>EvaluationLoop: \<^verbatim>\<open>analyser\<close>\<close>

record token_data =
  mint :: string
  user :: string
  bondingCurve :: string

text \<open>
  The trace of an evaluation loop: the notice of line 158, one entry per completed
  iteration (line 166) with its number, the value of \<^verbatim>\<open>proceed\<close> and the trace of its
  decision cycle, and one entry per \<^verbatim>\<open>asyncio.sleep\<close> (line 169) with the seconds.
\<close>

datatype loop_event =
    Waiting_notice
  | Iteration_completed nat "bool option" "event list"
  | Sleep nat

text \<open>
  The \<^verbatim>\<open>for\<close> loop of lines 161 to 169: \<open>i\<close> is the loop variable, the next argument
  the number of iterations \<^verbatim>\<open>range\<close> still holds. \<^verbatim>\<open>not proceed\<close> is true for \<^verbatim>\<open>False\<close>
  and for \<^verbatim>\<open>None\<close>.
\<close>

fun analyser_loop ::
  "library \<Rightarrow> analyzer \<Rightarrow> (nat \<Rightarrow> iteration_env) \<Rightarrow> int \<Rightarrow> nat \<Rightarrow> nat \<Rightarrow> loop_event list
     \<Rightarrow> loop_event list option" where
  "analyser_loop L self envs currentEpochTime i 0 tr = Some tr"
| "analyser_loop L self envs currentEpochTime i (Suc n) tr =
     (case make_decision L self (envs i) 35 1 60 80 currentEpochTime 100 of
        None \<Rightarrow> None
      | Some (proceed, cycle) \<Rightarrow>
          if proceed = Some True
          then analyser_loop L self envs currentEpochTime (i + 1) n
                 (tr @ [Iteration_completed (i + 1) proceed cycle, Sleep 5])
          else Some (tr @ [Iteration_completed (i + 1) proceed cycle]))"

text \<open>
  Lines 153 to 174, for a launch event whose addresses are well-formed. The clock read
  at line 160 is \<open>currentEpochTime\<close>; \<open>envs i\<close> is what the outside world answers
  during iteration \<open>i\<close>.
\<close>

definition analyser ::
  "library \<Rightarrow> token_data \<Rightarrow> int \<Rightarrow> (nat \<Rightarrow> iteration_env) \<Rightarrow> loop_event list option" where
  "analyser L td currentEpochTime envs =
     analyser_loop L (HolderCountAnalyzer (Some (user td)) (Some (bondingCurve td)))
       envs currentEpochTime 0 (12 * 5) [Waiting_notice]"

section \<open>LaunchOrchestrator: \<^verbatim>\<open>monitorTokenCreation\<close>\<close>

text \<open>
  The tasks of the event loop that are not finished, which is what
  \<^verbatim>\<open>asyncio.all_tasks()\<close> returns: the task that runs the monitor itself, one task per
  evaluation loop started and not finished, and any other task.
\<close>

datatype task = Monitor_task | Analyser_task string | Other_task

datatype admission = Analyser_started string | Too_many_tasks

text \<open>
  Lines 141 to 150, one launch event: the new set of tasks and the line printed.
  \<^verbatim>\<open>create_task\<close> registers the new loop and returns at once.
\<close>

definition monitor_step :: "task list \<Rightarrow> token_data \<Rightarrow> task list \<times> admission" where
  "monitor_step tasks td =
     (if length tasks < 200 then (tasks @ [Analyser_task (mint td)], Analyser_started (mint td))
      else (tasks, Too_many_tasks))"

text \<open>The number of evaluation loops running.\<close>

fun is_analyser :: "task \<Rightarrow> bool" where
  "is_analyser (Analyser_task m) = True"
| "is_analyser t = False"

definition running_evaluations :: "task list \<Rightarrow> nat" where
  "running_evaluations tasks = length (filter is_analyser tasks)"

section \<open>Auxiliary definitions and example inputs\<close>

text \<open>
  The part of the trace that \<^verbatim>\<open>get_holder_count\<close> leaves for \<open>n\<close> consecutive non-empty
  pages starting at page \<open>pg\<close>.
\<close>

fun processing :: "nat \<Rightarrow> nat \<Rightarrow> event list" where
  "processing pg 0 = []"
| "processing pg (Suc n) = Page_request pg # Processing_page pg # processing (Suc pg) n"

text \<open>
  A mint with three token accounts held by two wallets, listed on two pages.
\<close>

definition example_pages :: "nat \<Rightarrow> page" where
  "example_pages p =
     (if p = 1 then Page_accounts [\<lparr>account = ''a1'', owner = ''w1''\<rparr>, \<lparr>account = ''a2'', owner = ''w2''\<rparr>]
      else if p = 2 then Page_accounts [\<lparr>account = ''a3'', owner = ''w1''\<rparr>]
      else Page_accounts [])"

definition example_accounts :: "token_account list list" where
  "example_accounts = [[\<lparr>account = ''a1'', owner = ''w1''\<rparr>, \<lparr>account = ''a2'', owner = ''w2''\<rparr>],
                       [\<lparr>account = ''a3'', owner = ''w1''\<rparr>]]"

text \<open>
  The same listing, but the third answer has no \<^verbatim>\<open>result\<close> key, or the third request
  raises.
\<close>

definition example_pages_no_result :: "nat \<Rightarrow> page" where
  "example_pages_no_result p =
     (if p = 1 then Page_accounts [\<lparr>account = ''a1'', owner = ''w1''\<rparr>, \<lparr>account = ''a2'', owner = ''w2''\<rparr>]
      else if p = 2 then Page_accounts [\<lparr>account = ''a3'', owner = ''w1''\<rparr>]
      else Page_no_result)"

definition example_pages_raising :: "nat \<Rightarrow> page" where
  "example_pages_raising p =
     (if p = 1 then Page_accounts [\<lparr>account = ''a1'', owner = ''w1''\<rparr>, \<lparr>account = ''a2'', owner = ''w2''\<rparr>]
      else if p = 2 then Page_accounts [\<lparr>account = ''a3'', owner = ''w1''\<rparr>]
      else Page_raises)"

text \<open>
  A library whose encoder names three wallets and whose percentages are exact, and a
  launch whose five largest accounts are the bonding curve, a record that is too short,
  the creator, an account of another program and one more wallet.
\<close>

definition example_b58 :: "8 word list \<Rightarrow> string" where
  "example_b58 bs =
     (if bs = replicate 32 1 then ''DevWallet''
      else if bs = replicate 32 2 then ''BondingCurve''
      else ''Wallet'')"

definition example_percentage :: "int \<Rightarrow> rat" where
  "example_percentage a = of_int a / of_int total_supply * 100"

definition example_library :: library where
  "example_library = \<lparr>b58encode = example_b58, percentage_of = example_percentage\<rparr>"

definition token_record :: "8 word \<Rightarrow> 8 word list" where
  "token_record b = replicate 32 0 @ replicate 32 b @ replicate 8 0"

definition example_info :: "string \<Rightarrow> info_response" where
  "example_info a =
     (if a = ''acc_curve'' then Info_value SPL_TOKEN_PROGRAM_ID (Data_bytes (token_record 2))
      else if a = ''acc_short'' then Info_value SPL_TOKEN_PROGRAM_ID (Data_bytes (replicate 40 0))
      else if a = ''acc_dev'' then Info_value SPL_TOKEN_PROGRAM_ID (Data_bytes (token_record 1))
      else if a = ''acc_foreign''
        then Info_value ''11111111111111111111111111111111'' (Data_bytes (token_record 3))
      else if a = ''acc_other'' then Info_value SPL_TOKEN_PROGRAM_ID (Data_bytes (token_record 3))
      else Info_none)"

definition example_largest_accounts :: "largest_account list" where
  "example_largest_accounts =
     [\<lparr>la_address = ''acc_curve'', la_amount = 750000000000000\<rparr>,
      \<lparr>la_address = ''acc_short'', la_amount = 100000000000000\<rparr>,
      \<lparr>la_address = ''acc_dev'', la_amount = 50000000000000\<rparr>,
      \<lparr>la_address = ''acc_foreign'', la_amount = 30000000000000\<rparr>,
      \<lparr>la_address = ''acc_other'', la_amount = 20000000000000\<rparr>]"

definition example_analyzer :: analyzer where
  "example_analyzer = HolderCountAnalyzer (Some ''DevWallet'') (Some ''BondingCurve'')"

definition example_snapshot :: "holder list" where
  "example_snapshot =
     [\<lparr>rank = 1, address = ''BondingCurve'', amount = 750000000000000, percentage = 75, is_dev = False\<rparr>,
      \<lparr>rank = 3, address = ''DevWallet'', amount = 50000000000000, percentage = 5, is_dev = True\<rparr>,
      \<lparr>rank = 5, address = ''Wallet'', amount = 20000000000000, percentage = 2, is_dev = False\<rparr>]"

text \<open>An iteration in which the listing for the holder-count gate raises.\<close>

definition env_gate_raises :: iteration_env where
  "env_gate_raises =
     \<lparr>now_print = 1003, largest = Largest_value example_largest_accounts,
      account_info = example_info, pages_display = example_pages, now_check = 1004,
      pages_gate = example_pages_raising, pages_relaxed = example_pages\<rparr>"

text \<open>
  Snapshots with one record of the bonding curve at a given percentage next to the
  creator, and a snapshot without any record of the bonding curve.
\<close>

definition curve_snapshot :: "rat \<Rightarrow> holder list" where
  "curve_snapshot p =
     [\<lparr>rank = 1, address = ''BondingCurve'', amount = 0, percentage = p, is_dev = False\<rparr>,
      \<lparr>rank = 2, address = ''DevWallet'', amount = 50000000000000, percentage = 5, is_dev = True\<rparr>]"

definition no_curve_snapshot :: "holder list" where
  "no_curve_snapshot =
     [\<lparr>rank = 2, address = ''DevWallet'', amount = 50000000000000, percentage = 5, is_dev = True\<rparr>,
      \<lparr>rank = 3, address = ''Wallet'', amount = 20000000000000, percentage = 2, is_dev = False\<rparr>]"

text \<open>A launch event, and an event loop with 199 evaluation loops and the monitor.\<close>

definition example_token_data :: token_data where
  "example_token_data = \<lparr>mint = ''Mint'', user = ''DevWallet'', bondingCurve = ''BondingCurve''\<rparr>"

definition crowded_tasks :: "task list" where
  "crowded_tasks = Monitor_task # replicate 199 (Analyser_task ''Mint0'')"

definition full_tasks :: "task list" where
  "full_tasks = Monitor_task # replicate 200 (Analyser_task ''Mint0'')"

text \<open>
  Observers of the trace of an evaluation loop: the completed iterations with their
  value of \<^verbatim>\<open>proceed\<close>, and the shape of a run that starts with iteration \<open>i\<close>: the
  iterations are numbered consecutively, an iteration whose \<^verbatim>\<open>proceed\<close> is \<^verbatim>\<open>True\<close> is
  followed by a sleep of 5 seconds, and an iteration whose \<^verbatim>\<open>proceed\<close> is \<^verbatim>\<open>False\<close> or
  \<^verbatim>\<open>None\<close> is the last entry.
\<close>

fun completed :: "loop_event list \<Rightarrow> (nat \<times> bool option) list" where
  "completed [] = []"
| "completed (Iteration_completed i p c # tr) = (i, p) # completed tr"
| "completed (e # tr) = completed tr"

definition iterations_completed :: "loop_event list \<Rightarrow> nat" where
  "iterations_completed tr = length (completed tr)"

fun loop_shape :: "nat \<Rightarrow> loop_event list \<Rightarrow> bool" where
  "loop_shape i [] = True"
| "loop_shape i (Iteration_completed j p c # rest) =
     (j = i \<and> (if p = Some True
               then (case rest of Sleep s # rest' \<Rightarrow> s = 5 \<and> loop_shape (Suc i) rest' | _ \<Rightarrow> False)
               else rest = []))"
| "loop_shape i (e # rest) = False"

text \<open>
  A listing of holder pages ends when some page is empty, has no \<^verbatim>\<open>result\<close> or raises.
\<close>

definition listing_ends :: "(nat \<Rightarrow> page) \<Rightarrow> bool" where
  "listing_ends pages =
     (\<exists>q \<ge> 1. pages q = Page_raises \<or> pages q = Page_no_result \<or> pages q = Page_accounts [])"

text \<open>An iteration in which the largest-accounts query has no value.\<close>

definition env_no_data :: iteration_env where
  "env_no_data =
     \<lparr>now_print = 1003, largest = Largest_none, account_info = example_info,
      pages_display = example_pages, now_check = 1004, pages_gate = example_pages,
      pages_relaxed = example_pages\<rparr>"

text \<open>
  An endpoint that answers every page request with one account, an iteration that
  meets it in \<^verbatim>\<open>display_top_holders\<close>, and a world in which every iteration does.
\<close>

definition endless_pages :: "nat \<Rightarrow> page" where
  "endless_pages p = Page_accounts [\<lparr>account = ''a1'', owner = ''w1''\<rparr>]"

definition env_endless :: iteration_env where
  "env_endless =
     \<lparr>now_print = 1003, largest = Largest_value example_largest_accounts,
      account_info = example_info, pages_display = endless_pages, now_check = 1004,
      pages_gate = example_pages, pages_relaxed = example_pages\<rparr>"

definition endless_world :: "nat \<Rightarrow> iteration_env" where
  "endless_world i = env_endless"

text \<open>
  A world in which the first two iterations find no holders and the third meets a
  raising holder listing.
\<close>

definition example_world :: "nat \<Rightarrow> iteration_env" where
  "example_world i = (if i < 2 then env_no_data else env_gate_raises)"

text \<open>A world in which no iteration finds holders.\<close>

definition no_data_world :: "nat \<Rightarrow> iteration_env" where
  "no_data_world i = env_no_data"

text \<open>
  A listing of \<open>n\<close> accounts of \<open>n\<close> different owners on one page, and three iterations:
  one in which the creator has left the largest accounts and 40 wallets hold the
  token, one in which the creator still holds 5 percent and 60 wallets hold the token,
  and one in which the creator still holds 5 percent and 40 wallets hold the token.
\<close>

definition crowd :: "nat \<Rightarrow> nat \<Rightarrow> page" where
  "crowd n p =
     (if p = 1
      then Page_accounts (map (\<lambda>k. \<lparr>account = replicate k CHR ''a'', owner = replicate k CHR ''w''\<rparr>)
                            [0 ..< n])
      else Page_accounts [])"

definition cleared_largest_accounts :: "largest_account list" where
  "cleared_largest_accounts =
     [\<lparr>la_address = ''acc_curve'', la_amount = 750000000000000\<rparr>,
      \<lparr>la_address = ''acc_other'', la_amount = 20000000000000\<rparr>]"

definition cleared_snapshot :: "holder list" where
  "cleared_snapshot =
     [\<lparr>rank = 1, address = ''BondingCurve'', amount = 750000000000000, percentage = 75, is_dev = False\<rparr>,
      \<lparr>rank = 2, address = ''Wallet'', amount = 20000000000000, percentage = 2, is_dev = False\<rparr>]"

definition env_cleared :: iteration_env where
  "env_cleared =
     \<lparr>now_print = 1003, largest = Largest_value cleared_largest_accounts,
      account_info = example_info, pages_display = crowd 40, now_check = 1004,
      pages_gate = crowd 40, pages_relaxed = crowd 40\<rparr>"

definition env_special :: iteration_env where
  "env_special =
     \<lparr>now_print = 1003, largest = Largest_value example_largest_accounts,
      account_info = example_info, pages_display = crowd 60, now_check = 1004,
      pages_gate = crowd 60, pages_relaxed = crowd 60\<rparr>"

definition env_waiting :: iteration_env where
  "env_waiting =
     \<lparr>now_print = 1003, largest = Largest_value example_largest_accounts,
      account_info = example_info, pages_display = crowd 40, now_check = 1004,
      pages_gate = crowd 40, pages_relaxed = crowd 40\<rparr>"

text \<open>
  What a holder listing gives its caller: a count, an exception, or nothing when it
  never ends.
\<close>

definition listing_result :: "(nat \<Rightarrow> page) \<Rightarrow> (error + nat) option" where
  "listing_result pages = map_option fst (get_holder_count pages)"

text \<open>
  Iterations in which the listing of \<^verbatim>\<open>display_top_holders\<close> raises, and in which the
  listing of the second holder-count gate raises after the primary gates have failed.
\<close>

definition env_display_raises :: iteration_env where
  "env_display_raises =
     \<lparr>now_print = 1003, largest = Largest_value example_largest_accounts,
      account_info = example_info, pages_display = example_pages_raising, now_check = 1004,
      pages_gate = example_pages, pages_relaxed = example_pages\<rparr>"

definition env_relaxed_raises :: iteration_env where
  "env_relaxed_raises =
     \<lparr>now_print = 1003, largest = Largest_value example_largest_accounts,
      account_info = example_info, pages_display = example_pages, now_check = 1004,
      pages_gate = example_pages, pages_relaxed = example_pages_raising\<rparr>"

text \<open>
  Iterations in which the largest-accounts query raises, and in which every account
  lookup raises, and a world in which the largest-accounts query raises every time.
\<close>

definition env_largest_raises :: iteration_env where
  "env_largest_raises =
     \<lparr>now_print = 1003, largest = Largest_raises, account_info = example_info,
      pages_display = example_pages, now_check = 1004, pages_gate = example_pages,
      pages_relaxed = example_pages\<rparr>"

definition raising_info :: "string \<Rightarrow> info_response" where
  "raising_info a = Info_raises"

definition env_lookups_raise :: iteration_env where
  "env_lookups_raise =
     \<lparr>now_print = 1003, largest = Largest_value example_largest_accounts,
      account_info = raising_info, pages_display = example_pages, now_check = 1004,
      pages_gate = example_pages, pages_relaxed = example_pages\<rparr>"

definition raising_world :: "nat \<Rightarrow> iteration_env" where
  "raising_world i = env_largest_raises"

section \<open>Properties of the pagination\<close>

lemma add_owners_eq: "add_owners accs s = s \<union> owner ` set accs"
  unfolding add_owners_def by (induction accs arbitrary: s) auto

lemma pages_loop_stop_empty:
  "pages pg = Page_accounts [] \<Longrightarrow>
   pages_loop pages pg s tr = Some (Inr (card s), tr @ [Page_request pg, No_more_results (pg - 1)])"
  by (subst pages_loop.simps) simp

lemma pages_loop_stop_no_result:
  "pages pg = Page_no_result \<Longrightarrow>
   pages_loop pages pg s tr = Some (Inr (card s), tr @ [Page_request pg, No_more_results (pg - 1)])"
  by (subst pages_loop.simps) simp

lemma pages_loop_stop_raises:
  "pages pg = Page_raises \<Longrightarrow>
   pages_loop pages pg s tr = Some (Inl Page_error, tr @ [Page_request pg])"
  by (subst pages_loop.simps) simp

lemma pages_loop_step:
  "pages pg = Page_accounts accs \<Longrightarrow> accs \<noteq> [] \<Longrightarrow>
   pages_loop pages pg s tr =
   pages_loop pages (Suc pg) (s \<union> owner ` set accs) (tr @ [Page_request pg, Processing_page pg])"
  by (subst pages_loop.simps) (simp add: add_owners_eq)

lemma pages_loop_prefix:
  "\<forall>i < length ps. pages (pg + i) = Page_accounts (ps ! i) \<Longrightarrow> \<forall>accs \<in> set ps. accs \<noteq> [] \<Longrightarrow>
   pages_loop pages pg s tr =
   pages_loop pages (pg + length ps) (s \<union> owner ` (\<Union> (set (map set ps)))) (tr @ processing pg (length ps))"
proof (induction ps arbitrary: pg s tr)
  case Nil
  then show ?case by simp
next
  case (Cons accs ps)
  have h: "pages pg = Page_accounts accs" using Cons.prems(1) by force
  have ne: "accs \<noteq> []" using Cons.prems(2) by simp
  have rest: "\<forall>i < length ps. pages (Suc pg + i) = Page_accounts (ps ! i)"
    using Cons.prems(1) by force
  have ne': "\<forall>accs \<in> set ps. accs \<noteq> []" using Cons.prems(2) by simp
  show ?case
    by (simp add: pages_loop_step[where pages=pages and pg=pg and accs=accs, OF h ne] Cons.IH[OF rest ne'] Un_assoc image_Un)
qed

lemma pages_loop_stops:
  assumes "pages_loop pages pg s tr = Some r"
  shows "\<exists>q \<ge> pg. pages q = Page_raises \<or> pages q = Page_no_result \<or> pages q = Page_accounts []"
proof (rule pages_loop.raw_induct[where P = "\<lambda>pages pg s tr r.
        \<exists>q \<ge> pg. pages q = Page_raises \<or> pages q = Page_no_result \<or> pages q = Page_accounts []",
      OF _ assms])
  fix loop :: "(nat \<Rightarrow> page) \<Rightarrow> nat \<Rightarrow> string set \<Rightarrow> event list \<Rightarrow> ((error + nat) \<times> event list) option"
  fix pages pg all_owners tr r
  assume IH: "\<And>pages pg all_owners tr r. loop pages pg all_owners tr = Some r \<Longrightarrow>
     \<exists>q \<ge> pg. pages q = Page_raises \<or> pages q = Page_no_result \<or> pages q = Page_accounts []"
  assume body: "(case pages pg of
        Page_raises \<Rightarrow> Some (Inl Page_error, tr @ [Page_request pg])
      | Page_no_result \<Rightarrow>
          Some (Inr (card all_owners), tr @ [Page_request pg, No_more_results (pg - 1)])
      | Page_accounts accs \<Rightarrow>
          if length accs = 0
          then Some (Inr (card all_owners), tr @ [Page_request pg, No_more_results (pg - 1)])
          else loop pages (pg + 1) (add_owners accs all_owners)
                 (tr @ [Page_request pg, Processing_page pg])) = Some r"
  show "\<exists>q \<ge> pg. pages q = Page_raises \<or> pages q = Page_no_result \<or> pages q = Page_accounts []"
  proof (cases "pages pg")
    case (Page_accounts accs)
    show ?thesis
    proof (cases "accs = []")
      case True
      with Page_accounts show ?thesis by blast
    next
      case False
      with body Page_accounts have "loop pages (pg + 1) (add_owners accs all_owners)
          (tr @ [Page_request pg, Processing_page pg]) = Some r" by simp
      from IH[OF this] obtain q where "q \<ge> pg + 1" and
        "pages q = Page_raises \<or> pages q = Page_no_result \<or> pages q = Page_accounts []" by blast
      then show ?thesis by (metis add_leD1)
    qed
  qed blast+
qed

lemma pages_loop_sim_Some:
  assumes "pages_loop f pg s tr = Some r"
  shows "(\<forall>q \<ge> pg. f q = g q \<or> (f q = Page_no_result \<and> g q = Page_accounts [])
                      \<or> (f q = Page_accounts [] \<and> g q = Page_no_result))
         \<longrightarrow> pages_loop g pg s tr = Some r"
proof (rule pages_loop.raw_induct[where P = "\<lambda>f pg s tr r.
        (\<forall>q \<ge> pg. f q = g q \<or> (f q = Page_no_result \<and> g q = Page_accounts [])
                      \<or> (f q = Page_accounts [] \<and> g q = Page_no_result))
        \<longrightarrow> pages_loop g pg s tr = Some r", OF _ assms])
  fix loop :: "(nat \<Rightarrow> page) \<Rightarrow> nat \<Rightarrow> string set \<Rightarrow> event list \<Rightarrow> ((error + nat) \<times> event list) option"
  fix f pg all_owners tr r
  assume IH: "\<And>f pg all_owners tr r. loop f pg all_owners tr = Some r \<Longrightarrow>
     (\<forall>q \<ge> pg. f q = g q \<or> (f q = Page_no_result \<and> g q = Page_accounts [])
                      \<or> (f q = Page_accounts [] \<and> g q = Page_no_result))
     \<longrightarrow> pages_loop g pg all_owners tr = Some r"
  assume body: "(case f pg of
        Page_raises \<Rightarrow> Some (Inl Page_error, tr @ [Page_request pg])
      | Page_no_result \<Rightarrow>
          Some (Inr (card all_owners), tr @ [Page_request pg, No_more_results (pg - 1)])
      | Page_accounts accs \<Rightarrow>
          if length accs = 0
          then Some (Inr (card all_owners), tr @ [Page_request pg, No_more_results (pg - 1)])
          else loop f (pg + 1) (add_owners accs all_owners)
                 (tr @ [Page_request pg, Processing_page pg])) = Some r"
  show "(\<forall>q \<ge> pg. f q = g q \<or> (f q = Page_no_result \<and> g q = Page_accounts [])
                      \<or> (f q = Page_accounts [] \<and> g q = Page_no_result))
        \<longrightarrow> pages_loop g pg all_owners tr = Some r"
  proof
    assume agree: "\<forall>q \<ge> pg. f q = g q \<or> (f q = Page_no_result \<and> g q = Page_accounts [])
                      \<or> (f q = Page_accounts [] \<and> g q = Page_no_result)"
    then have here: "f pg = g pg \<or> (f pg = Page_no_result \<and> g pg = Page_accounts [])
                      \<or> (f pg = Page_accounts [] \<and> g pg = Page_no_result)" by simp
    from agree have later: "\<forall>q \<ge> pg + 1. f q = g q \<or> (f q = Page_no_result \<and> g q = Page_accounts [])
                      \<or> (f q = Page_accounts [] \<and> g q = Page_no_result)" by simp
    show "pages_loop g pg all_owners tr = Some r"
    proof (cases "f pg")
      case (Page_accounts accs)
      show ?thesis
      proof (cases "accs = []")
        case True
        with here Page_accounts have "g pg = Page_accounts [] \<or> g pg = Page_no_result" by auto
        with True body Page_accounts show ?thesis by (subst pages_loop.simps) auto
      next
        case False
        with here Page_accounts have eq: "g pg = Page_accounts accs" by auto
        from False body Page_accounts have "loop f (pg + 1) (add_owners accs all_owners)
            (tr @ [Page_request pg, Processing_page pg]) = Some r" by simp
        from IH[OF this] later have "pages_loop g (pg + 1) (add_owners accs all_owners)
            (tr @ [Page_request pg, Processing_page pg]) = Some r" by blast
        with False eq show ?thesis by (subst pages_loop.simps) simp
      qed
    next
      case Page_raises
      with here have "g pg = Page_raises" by auto
      with body Page_raises show ?thesis by (subst pages_loop.simps) simp
    next
      case Page_no_result
      with here have "g pg = Page_accounts [] \<or> g pg = Page_no_result" by auto
      with body Page_no_result show ?thesis by (subst pages_loop.simps) auto
    qed
  qed
qed

lemma pages_loop_sim:
  assumes "\<forall>q \<ge> pg. f q = g q \<or> (f q = Page_no_result \<and> g q = Page_accounts [])
                      \<or> (f q = Page_accounts [] \<and> g q = Page_no_result)"
  shows "pages_loop f pg s tr = pages_loop g pg s tr"
proof (cases "pages_loop f pg s tr")
  case None
  show ?thesis
  proof (cases "pages_loop g pg s tr")
    case (Some r)
    from assms have "\<forall>q \<ge> pg. g q = f q \<or> (g q = Page_no_result \<and> f q = Page_accounts [])
                      \<or> (g q = Page_accounts [] \<and> f q = Page_no_result)" by metis
    with pages_loop_sim_Some[OF Some, of f] have "pages_loop f pg s tr = Some r" by blast
    with None show ?thesis by simp
  qed (simp add: None)
next
  case (Some r)
  from pages_loop_sim_Some[OF Some, of g] assms show ?thesis by (simp add: Some)
qed

lemma requested_append: "requested (xs @ ys) = requested xs @ requested ys"
  by (induction xs rule: requested.induct) simp_all

lemma requested_processing: "requested (processing pg n) = [pg ..< pg + n]"
  by (induction n arbitrary: pg) (simp_all add: upt_rec)

lemma get_holder_count_prefix:
  assumes "\<forall>i < length ps. pages (Suc i) = Page_accounts (ps ! i)"
      and "\<forall>accs \<in> set ps. accs \<noteq> []"
  shows "get_holder_count pages =
         pages_loop pages (Suc (length ps)) (owner ` (\<Union> (set (map set ps))))
           (processing 1 (length ps))"
  unfolding get_holder_count_def
  using pages_loop_prefix[where pages = pages and pg = 1 and ps = ps and s = "{}" and tr = "[]"] assms
  by simp

text \<open>
  C5. When the endpoint serves the non-empty pages \<open>ps\<close> and then an empty page,
  \<^verbatim>\<open>get_holder_count\<close> returns the number of distinct owners found on the pages \<open>ps\<close>
  (two accounts of one owner count once), and the pages it requests are exactly
  \<open>1, \<dots>, length ps + 1\<close>: the empty page is the last one asked for.
\<close>

theorem get_holder_count_pagination:
  assumes "\<forall>i < length ps. pages (Suc i) = Page_accounts (ps ! i)"
      and "\<forall>accs \<in> set ps. accs \<noteq> []"
      and "pages (Suc (length ps)) = Page_accounts []"
  shows "map_option fst (get_holder_count pages)
           = Some (Inr (card (owner ` (\<Union> (set (map set ps))))))
       \<and> map_option (\<lambda>r. requested (snd r)) (get_holder_count pages)
           = Some [1 ..< length ps + 2]"
  by (simp add: get_holder_count_prefix[OF assms(1,2)] pages_loop_stop_empty[where pages = pages and pg = "Suc (length ps)", OF assms(3)]
        requested_append requested_processing)

theorem get_holder_count_pagination_witness:
  "map_option fst (get_holder_count example_pages) = Some (Inr 2)
   \<and> map_option (\<lambda>r. requested (snd r)) (get_holder_count example_pages) = Some [1, 2, 3]"
  using get_holder_count_pagination[of example_accounts example_pages]
  by (simp add: example_accounts_def example_pages_def less_Suc_eq upt_rec eval_nat_numeral)

section \<open>Properties of the error paths of the pagination\<close>

text \<open>
  C10. A page without the key \<^verbatim>\<open>result\<close> is treated like an empty page: replacing one
  by the other at any page number changes neither the result nor the trace of
  \<^verbatim>\<open>get_holder_count\<close>. In particular, after the non-empty pages \<open>ps\<close> a page
  without \<^verbatim>\<open>result\<close> ends the listing: the function returns the number of distinct
  owners of \<open>ps\<close> (it does not raise), and it has requested the pages
  \<open>1, \<dots>, length ps + 1\<close> once each (no retry, nothing after).
\<close>

theorem no_result_page_like_empty_page:
  "get_holder_count (pages(k := Page_no_result)) = get_holder_count (pages(k := Page_accounts []))
   \<and> ((\<forall>i < length ps. pages (Suc i) = Page_accounts (ps ! i)) \<and> (\<forall>accs \<in> set ps. accs \<noteq> [])
        \<and> pages (Suc (length ps)) = Page_no_result
      \<longrightarrow> map_option fst (get_holder_count pages)
            = Some (Inr (card (owner ` (\<Union> (set (map set ps))))))
        \<and> map_option (\<lambda>r. requested (snd r)) (get_holder_count pages)
            = Some [1 ..< length ps + 2])"
proof (intro conjI impI)
  show "get_holder_count (pages(k := Page_no_result)) = get_holder_count (pages(k := Page_accounts []))"
    unfolding get_holder_count_def by (rule pages_loop_sim) simp
next
  assume h: "(\<forall>i < length ps. pages (Suc i) = Page_accounts (ps ! i)) \<and> (\<forall>accs \<in> set ps. accs \<noteq> [])
        \<and> pages (Suc (length ps)) = Page_no_result"
  then have a: "\<forall>i < length ps. pages (Suc i) = Page_accounts (ps ! i)"
    and b: "\<forall>accs \<in> set ps. accs \<noteq> []" and c: "pages (Suc (length ps)) = Page_no_result"
    by simp_all
  show "map_option fst (get_holder_count pages)
            = Some (Inr (card (owner ` (\<Union> (set (map set ps))))))"
    by (simp add: get_holder_count_prefix[OF a b]
          pages_loop_stop_no_result[where pages = pages and pg = "Suc (length ps)", OF c])
  show "map_option (\<lambda>r. requested (snd r)) (get_holder_count pages) = Some [1 ..< length ps + 2]"
    by (simp add: get_holder_count_prefix[OF a b]
          pages_loop_stop_no_result[where pages = pages and pg = "Suc (length ps)", OF c]
          requested_append requested_processing)
qed

theorem no_result_page_like_empty_page_witness:
  "get_holder_count (example_pages_no_result(3 := Page_no_result))
     = get_holder_count (example_pages_no_result(3 := Page_accounts []))
   \<and> map_option fst (get_holder_count example_pages_no_result) = Some (Inr 2)
   \<and> map_option (\<lambda>r. requested (snd r)) (get_holder_count example_pages_no_result) = Some [1, 2, 3]"
  using no_result_page_like_empty_page[of example_pages_no_result 3 example_accounts]
  by (simp add: example_accounts_def example_pages_no_result_def less_Suc_eq upt_rec eval_nat_numeral)

lemma example_get_top_holders:
  "get_top_holders example_library example_analyzer (Largest_value example_largest_accounts)
     example_info 20 = example_snapshot"
  by (simp add: get_top_holders_def total_supply_def CONVERT_TO_OWNER_WALLET_ADDRESSES_def
        example_largest_accounts_def get_owner_wallet_def example_info_def
        SPL_TOKEN_PROGRAM_ID_def token_record_def example_library_def example_b58_def
        example_percentage_def example_analyzer_def HolderCountAnalyzer_def pubkey_str_def
        example_snapshot_def)

lemma and_then_None [simp]: "and_then None f = None"
  by (simp add: and_then_def)

lemma and_then_Inl [simp]: "and_then (Some (Inl e, tr)) f = Some (Inl e, tr)"
  by (simp add: and_then_def)

lemma and_then_Inr [simp]:
  "and_then (Some (Inr x, tr)) f = map_option (\<lambda>r. (fst r, tr @ snd r)) (f x)"
  by (simp add: and_then_def split: option.splits prod.splits)

lemma and_then_returns [simp]:
  "and_then (returns p) f = map_option (\<lambda>r. (fst r, snd p @ snd r)) (f (fst p))"
  by (simp add: returns_def)

lemma example_pages_count:
  "get_holder_count example_pages = Some (Inr 2, [Page_request 1, Processing_page 1,
     Page_request 2, Processing_page 2, Page_request 3, No_more_results 2])"
proof -
  have "get_holder_count example_pages =
         pages_loop example_pages (Suc (length example_accounts))
           (owner ` (\<Union> (set (map set example_accounts)))) (processing 1 (length example_accounts))"
    by (rule get_holder_count_prefix)
       (simp_all add: example_accounts_def example_pages_def less_Suc_eq)
  also have "\<dots> = Some (Inr 2, [Page_request 1, Processing_page 1,
     Page_request 2, Processing_page 2, Page_request 3, No_more_results 2])"
    by (subst pages_loop_stop_empty)
       (simp_all add: example_accounts_def example_pages_def eval_nat_numeral)
  finally show ?thesis .
qed

lemma example_pages_raising_count:
  "get_holder_count example_pages_raising = Some (Inl Page_error, [Page_request 1, Processing_page 1,
     Page_request 2, Processing_page 2, Page_request 3])"
proof -
  have "get_holder_count example_pages_raising =
         pages_loop example_pages_raising (Suc (length example_accounts))
           (owner ` (\<Union> (set (map set example_accounts)))) (processing 1 (length example_accounts))"
    by (rule get_holder_count_prefix)
       (simp_all add: example_accounts_def example_pages_raising_def less_Suc_eq)
  also have "\<dots> = Some (Inl Page_error, [Page_request 1, Processing_page 1,
     Page_request 2, Processing_page 2, Page_request 3])"
    by (subst pages_loop_stop_raises)
       (simp_all add: example_accounts_def example_pages_raising_def eval_nat_numeral)
  finally show ?thesis .
qed

section \<open>Properties of the gates\<close>

lemma dev_wallet_loop_fst:
  "fst (dev_wallet_loop dev threshold hs)
     = (\<not> (\<exists>h \<in> set hs. address h = dev \<and> percentage h \<ge> of_int threshold))"
  by (induction hs) auto

lemma lp_liquidity_loop_fst:
  "fst (lp_liquidity_loop bc lo up hs)
     = (\<exists>h \<in> set hs. address h = bc \<and> of_int lo < percentage h \<and> percentage h \<le> of_int up)"
  by (induction hs) auto

lemma bonding_curve_loop_iff:
  "bonding_curve_loop bc hs = (\<exists>h \<in> set hs. address h = bc \<and> percentage h \<ge> 99)"
  by (induction hs) auto

text \<open>
  C3, as the code has it. On the empty snapshot \<^verbatim>\<open>check_dev_wallet_sold\<close> returns false
  (the guard of line 262). On every non-empty snapshot it returns false exactly when
  some record owned by the creator wallet has a percentage at or above the threshold;
  so it returns true when no record is owned by the creator wallet.
\<close>

theorem check_dev_wallet_sold_nonempty:
  "fst (check_dev_wallet_sold self threshold []) = False
   \<and> (top_holders \<noteq> [] \<longrightarrow>
        fst (check_dev_wallet_sold self threshold top_holders)
          = (\<not> (\<exists>h \<in> set top_holders. address h = pubkey_str (dev_wallet_pubkey self)
                                       \<and> percentage h \<ge> of_int threshold)))
   \<and> (top_holders \<noteq> [] \<and> (\<forall>h \<in> set top_holders. address h \<noteq> pubkey_str (dev_wallet_pubkey self))
        \<longrightarrow> fst (check_dev_wallet_sold self threshold top_holders))"
  by (auto simp: check_dev_wallet_sold_def dev_wallet_loop_fst)

theorem check_dev_wallet_sold_nonempty_witness:
  "fst (check_dev_wallet_sold example_analyzer 1 example_snapshot) = False
   \<and> fst (check_dev_wallet_sold example_analyzer 10 example_snapshot) = True
   \<and> fst (check_dev_wallet_sold example_analyzer 1 (curve_snapshot 75)) = False
   \<and> fst (check_dev_wallet_sold (HolderCountAnalyzer (Some ''Nobody'') None) 1 example_snapshot)"
  using check_dev_wallet_sold_nonempty[of example_analyzer 1 example_snapshot]
    check_dev_wallet_sold_nonempty[of example_analyzer 10 example_snapshot]
    check_dev_wallet_sold_nonempty[of example_analyzer 1 "curve_snapshot 75"]
    check_dev_wallet_sold_nonempty[of "HolderCountAnalyzer (Some ''Nobody'') None" 1 example_snapshot]
  by (simp add: example_snapshot_def curve_snapshot_def example_analyzer_def
        HolderCountAnalyzer_def pubkey_str_def)

text \<open>
  C3 as stated fails on the empty snapshot, which has no record of the creator wallet:
  the predicate returns false there.
\<close>

theorem check_dev_wallet_sold_empty_counterexample:
  "check_dev_wallet_sold example_analyzer 1 [] = (False, [No_top_holders])"
  by (simp add: check_dev_wallet_sold_def)

text \<open>
  C4. \<^verbatim>\<open>check_lp_liquidity\<close> returns true exactly when a record owned by the bonding
  curve has a percentage above the lower bound and at or below the upper bound. With
  the bounds 70 and 80 it is true when that record is at exactly 80 and false when it
  is at exactly 70, and it is false when the snapshot has no record of the bonding
  curve.
\<close>

theorem check_lp_liquidity_range:
  "fst (check_lp_liquidity self thresholdLower thresholdUpper top_holders)
     = (\<exists>h \<in> set top_holders. address h = pubkey_str (bonding_curve_pubkey self)
           \<and> of_int thresholdLower < percentage h \<and> percentage h \<le> of_int thresholdUpper)
   \<and> ((\<exists>h \<in> set top_holders. address h = pubkey_str (bonding_curve_pubkey self) \<and> percentage h = 80)
        \<longrightarrow> fst (check_lp_liquidity self 70 80 top_holders))
   \<and> ((\<forall>h \<in> set top_holders. address h = pubkey_str (bonding_curve_pubkey self) \<longrightarrow> percentage h = 70)
        \<longrightarrow> \<not> fst (check_lp_liquidity self 70 80 top_holders))
   \<and> ((\<forall>h \<in> set top_holders. address h \<noteq> pubkey_str (bonding_curve_pubkey self))
        \<longrightarrow> \<not> fst (check_lp_liquidity self thresholdLower thresholdUpper top_holders))"
proof -
  have iff: "\<And>lo up. fst (check_lp_liquidity self lo up top_holders)
     = (\<exists>h \<in> set top_holders. address h = pubkey_str (bonding_curve_pubkey self)
           \<and> of_int lo < percentage h \<and> percentage h \<le> of_int up)"
    by (simp add: check_lp_liquidity_def lp_liquidity_loop_fst)
  show ?thesis
    unfolding iff by (intro conjI impI) auto
qed

theorem check_lp_liquidity_range_witness:
  "fst (check_lp_liquidity example_analyzer 70 80 (curve_snapshot 80))
   \<and> \<not> fst (check_lp_liquidity example_analyzer 70 80 (curve_snapshot 70))
   \<and> \<not> fst (check_lp_liquidity example_analyzer 70 80 no_curve_snapshot)
   \<and> fst (check_lp_liquidity example_analyzer 60 80 (curve_snapshot 75))"
  using check_lp_liquidity_range[of example_analyzer 70 80 "curve_snapshot 80"]
    check_lp_liquidity_range[of example_analyzer 70 80 "curve_snapshot 70"]
    check_lp_liquidity_range[of example_analyzer 70 80 no_curve_snapshot]
    check_lp_liquidity_range[of example_analyzer 60 80 "curve_snapshot 75"]
  by (simp add: curve_snapshot_def no_curve_snapshot_def example_analyzer_def
        HolderCountAnalyzer_def pubkey_str_def)

section \<open>Properties of the orchestrator\<close>

lemma running_evaluations_le: "running_evaluations tasks \<le> length tasks"
  by (simp add: running_evaluations_def)

text \<open>
  C8, as the code has it. The ceiling of 200 applies to the number of unfinished tasks
  of the event loop, not to the number of evaluation loops: an event is dropped exactly
  when that number is 200 or more, and then nothing is stored for it; below it a new
  evaluation loop is registered and the step returns. Every evaluation loop is one of
  the tasks, so an event that arrives while 200 or more evaluation loops are running is
  dropped.
\<close>

theorem monitor_step_admission:
  "(snd (monitor_step tasks td) = Too_many_tasks) = (200 \<le> length tasks)
   \<and> (200 \<le> length tasks \<longrightarrow> monitor_step tasks td = (tasks, Too_many_tasks))
   \<and> (length tasks < 200 \<longrightarrow>
        monitor_step tasks td = (tasks @ [Analyser_task (mint td)], Analyser_started (mint td)))
   \<and> (200 \<le> running_evaluations tasks \<longrightarrow> monitor_step tasks td = (tasks, Too_many_tasks))"
  using running_evaluations_le[of tasks] by (auto simp: monitor_step_def)

theorem monitor_step_admission_witness:
  "monitor_step full_tasks example_token_data = (full_tasks, Too_many_tasks)
   \<and> monitor_step [Monitor_task] example_token_data
       = ([Monitor_task, Analyser_task ''Mint''], Analyser_started ''Mint'')"
  using monitor_step_admission[of full_tasks example_token_data]
    monitor_step_admission[of "[Monitor_task]" example_token_data]
  by (simp add: full_tasks_def running_evaluations_def example_token_data_def)

text \<open>
  C8 as stated fails: with 199 evaluation loops running, which is below the ceiling,
  the monitor's own task is the 200th task and the event is dropped.
\<close>

theorem monitor_step_below_ceiling_counterexample:
  "running_evaluations crowded_tasks = 199
   \<and> monitor_step crowded_tasks example_token_data = (crowded_tasks, Too_many_tasks)"
  by (simp add: crowded_tasks_def running_evaluations_def monitor_step_def)

section \<open>Properties of the ranker\<close>

lemma get_owner_wallet_Some_iff:
  "get_owner_wallet L response = Some w \<longleftrightarrow>
     (\<exists>bs. response = Info_value SPL_TOKEN_PROGRAM_ID (Data_bytes bs) \<and> 64 \<le> length bs
           \<and> w = b58encode L (take 32 (drop 32 bs)))"
  by (auto simp: get_owner_wallet_def split: info_response.splits account_data.splits)

lemma compile_holders_ranks:
  "map rank (compile_holders L self idx (zip as (map f as)))
     = map (\<lambda>i. idx + i) (filter (\<lambda>i. f (as ! i) \<noteq> None) [0 ..< length as])"
proof (induction as arbitrary: idx)
  case Nil
  show ?case by simp
next
  case (Cons a as)
  have upt: "[0 ..< Suc (length as)] = 0 # map Suc [0 ..< length as]"
    by (simp only: map_Suc_upt upt_conv_Cons[OF zero_less_Suc])
  show ?case
  proof (cases "f a")
    case None
    then show ?thesis
      by (simp add: upt Cons.IH filter_map comp_def del: upt_Suc)
  next
    case (Some w)
    then show ?thesis
      by (simp add: upt Cons.IH filter_map comp_def del: upt_Suc)
  qed
qed

lemma compile_holders_member:
  "h \<in> set (compile_holders L self idx (zip as (map f as))) \<Longrightarrow>
   idx \<le> rank h \<and> rank h - idx < length as \<and> f (as ! (rank h - idx)) = Some (address h)
   \<and> amount h = la_amount (as ! (rank h - idx))"
proof (induction as arbitrary: idx)
  case Nil
  then show ?case by simp
next
  case (Cons a as)
  show ?case
  proof (cases "f a")
    case None
    with Cons.prems have "h \<in> set (compile_holders L self (Suc idx) (zip as (map f as)))" by simp
    from Cons.IH[OF this] show ?thesis by (auto simp: Suc_diff_le)
  next
    case (Some w)
    with Cons.prems consider "rank h = idx \<and> address h = w \<and> amount h = la_amount a"
      | "h \<in> set (compile_holders L self (Suc idx) (zip as (map f as)))" by auto
    then show ?thesis
    proof cases
      case 1
      with Some show ?thesis by simp
    next
      case 2
      from Cons.IH[OF this] show ?thesis by (auto simp: Suc_diff_le)
    qed
  qed
qed

text \<open>
  C7. \<^verbatim>\<open>get_owner_wallet\<close> resolves an owner exactly for a record whose declared owning
  program is the SPL token program and whose data are at least 64 bytes long, and the
  owner is the encoding of bytes 32 to 63; every other answer resolves to no owner.
  In the output of \<^verbatim>\<open>get_top_holders\<close> the ranks are the 1-based positions, in the
  list of the largest accounts, of exactly the accounts whose owner was resolved, in
  order: an unresolved account is dropped and the ranks after it are not renumbered.
  Each record carries the resolved owner and the amount of the account at its rank.
\<close>

theorem get_top_holders_ranks:
  "(get_owner_wallet L response = Some w \<longleftrightarrow>
      (\<exists>bs. response = Info_value SPL_TOKEN_PROGRAM_ID (Data_bytes bs) \<and> 64 \<le> length bs
            \<and> w = b58encode L (take 32 (drop 32 bs))))
   \<and> map rank (get_top_holders L self (Largest_value accs) info top_n)
       = map Suc (filter (\<lambda>i. get_owner_wallet L (info (la_address (accs ! i))) \<noteq> None)
                    [0 ..< min top_n (length accs)])
   \<and> (\<forall>h \<in> set (get_top_holders L self (Largest_value accs) info top_n).
         1 \<le> rank h \<and> rank h \<le> min top_n (length accs)
         \<and> get_owner_wallet L (info (la_address (accs ! (rank h - 1)))) = Some (address h)
         \<and> amount h = la_amount (accs ! (rank h - 1)))"
proof -
  have "map rank (get_top_holders L self (Largest_value accs) info top_n)
      = map Suc (filter (\<lambda>i. get_owner_wallet L (info (la_address (take top_n accs ! i))) \<noteq> None)
                    [0 ..< min top_n (length accs)])"
    by (simp add: get_top_holders_def total_supply_def CONVERT_TO_OWNER_WALLET_ADDRESSES_def
          Let_def compile_holders_ranks min.commute)
  also have "\<dots> = map Suc (filter (\<lambda>i. get_owner_wallet L (info (la_address (accs ! i))) \<noteq> None)
                    [0 ..< min top_n (length accs)])"
    by (rule arg_cong[where f = "map Suc"], rule filter_cong) auto
  finally have ranks: "map rank (get_top_holders L self (Largest_value accs) info top_n)
       = map Suc (filter (\<lambda>i. get_owner_wallet L (info (la_address (accs ! i))) \<noteq> None)
                    [0 ..< min top_n (length accs)])" .
  have members: "1 \<le> rank h \<and> rank h \<le> min top_n (length accs)
         \<and> get_owner_wallet L (info (la_address (accs ! (rank h - 1)))) = Some (address h)
         \<and> amount h = la_amount (accs ! (rank h - 1))"
    if "h \<in> set (get_top_holders L self (Largest_value accs) info top_n)" for h
  proof -
    from that have "h \<in> set (compile_holders L self 1
       (zip (take top_n accs) (map (\<lambda>a. get_owner_wallet L (info (la_address a))) (take top_n accs))))"
      by (simp add: get_top_holders_def total_supply_def CONVERT_TO_OWNER_WALLET_ADDRESSES_def
            Let_def)
    note m = compile_holders_member[OF this]
    from m have r: "1 \<le> rank h" by blast
    from m have l: "rank h - 1 < length (take top_n accs)" by blast
    from m have o: "get_owner_wallet L (info (la_address (take top_n accs ! (rank h - 1))))
                      = Some (address h)" by blast
    from m have a: "amount h = la_amount (take top_n accs ! (rank h - 1))" by blast
    from l have lt: "rank h - 1 < top_n" by simp
    have nth: "take top_n accs ! (rank h - 1) = accs ! (rank h - 1)" by (rule nth_take[OF lt])
    from r l have le: "rank h \<le> min top_n (length accs)" by auto
    from r le o a show ?thesis unfolding nth by blast
  qed
  from get_owner_wallet_Some_iff[of L response w] ranks members show ?thesis by blast
qed

theorem get_top_holders_ranks_witness:
  "get_owner_wallet example_library (example_info ''acc_dev'') = Some ''DevWallet''
   \<and> map rank (get_top_holders example_library example_analyzer
        (Largest_value example_largest_accounts) example_info 20) = [1, 3, 5]"
proof -
  note t = get_top_holders_ranks[of example_library "example_info ''acc_dev''" "''DevWallet''"
          example_analyzer example_largest_accounts example_info 20]
  have "example_info ''acc_dev'' = Info_value SPL_TOKEN_PROGRAM_ID (Data_bytes (token_record 1))
        \<and> 64 \<le> length (token_record 1)
        \<and> ''DevWallet'' = b58encode example_library (take 32 (drop 32 (token_record 1)))"
    by (simp add: example_info_def token_record_def example_library_def example_b58_def)
  then have "\<exists>bs. example_info ''acc_dev'' = Info_value SPL_TOKEN_PROGRAM_ID (Data_bytes bs)
        \<and> 64 \<le> length bs \<and> ''DevWallet'' = b58encode example_library (take 32 (drop 32 bs))"
    by blast
  with t have a: "get_owner_wallet example_library (example_info ''acc_dev'') = Some ''DevWallet''"
    by blast
  from t have "map rank (get_top_holders example_library example_analyzer
        (Largest_value example_largest_accounts) example_info 20)
      = map Suc (filter (\<lambda>i. get_owner_wallet example_library
                    (example_info (la_address (example_largest_accounts ! i))) \<noteq> None)
           [0 ..< min 20 (length example_largest_accounts)])"
    by blast
  also have "\<dots> = [1, 3, 5]"
    by (simp add: example_largest_accounts_def upt_rec get_owner_wallet_def example_info_def
          SPL_TOKEN_PROGRAM_ID_def token_record_def)
  finally show ?thesis using a by simp
qed

section \<open>Properties of the decision engine\<close>

text \<open>
  C1, as the code has it. When the snapshot fetched in an iteration is empty,
  \<^verbatim>\<open>make_decision\<close> returns at once and evaluates no gate: its trace holds the two
  lines 301 and 304 and no page request. The value returned is \<^verbatim>\<open>True\<close>, so the
  evaluation loop sleeps and goes on with its next iteration.
\<close>

theorem make_decision_empty_snapshot:
  assumes "get_top_holders L self (largest (envs i)) (account_info (envs i)) 20 = []"
  shows "make_decision L self (envs i) holder_threshold dev_threshold lp_threshold_lower
           lp_threshold_upper startEpochTime timeLimit
         = Some (Some True, [At_second (now_print (envs i) - startEpochTime), No_top_holders_skipping])
       \<and> analyser_loop L self envs currentEpochTime i (Suc n) tr
         = analyser_loop L self envs currentEpochTime (Suc i) n
             (tr @ [Iteration_completed (Suc i) (Some True)
                      [At_second (now_print (envs i) - currentEpochTime), No_top_holders_skipping],
                    Sleep 5])"
  using assms by (simp add: make_decision_def)

theorem make_decision_empty_snapshot_witness:
  "make_decision example_library example_analyzer (example_world 0) 35 1 60 80 1000 100
     = Some (Some True, [At_second 3, No_top_holders_skipping])
   \<and> analyser_loop example_library example_analyzer example_world 1000 0 (Suc 59) [Waiting_notice]
     = analyser_loop example_library example_analyzer example_world 1000 (Suc 0) 59
         [Waiting_notice, Iteration_completed (Suc 0) (Some True) [At_second 3, No_top_holders_skipping],
          Sleep 5]"
  using make_decision_empty_snapshot[of example_library example_analyzer example_world 0
          35 1 60 80 1000 100 1000 59 "[Waiting_notice]"]
  by (simp add: example_world_def env_no_data_def get_top_holders_def)

lemma completed_append: "completed (xs @ ys) = completed xs @ completed ys"
  by (induction xs rule: completed.induct) simp_all

lemma no_data_world_iterations:
  "map_option iterations_completed
     (analyser_loop L self no_data_world currentEpochTime i n tr)
   = Some (length (completed tr) + n)"
proof (induction n arbitrary: i tr)
  case 0
  show ?case by (simp add: iterations_completed_def)
next
  case (Suc n)
  have "make_decision L self (no_data_world i) 35 1 60 80 currentEpochTime 100
      = Some (Some True, [At_second (1003 - currentEpochTime), No_top_holders_skipping])"
    by (simp add: make_decision_def no_data_world_def env_no_data_def get_top_holders_def)
  then have "analyser_loop L self no_data_world currentEpochTime i (Suc n) tr
      = analyser_loop L self no_data_world currentEpochTime (Suc i) n
          (tr @ [Iteration_completed (Suc i) (Some True)
                   [At_second (1003 - currentEpochTime), No_top_holders_skipping], Sleep 5])"
    by simp
  then show ?case
    by (simp only: Suc.IH) (simp add: completed_append)
qed

text \<open>
  C1 as stated fails: on an iteration without holders the value returned is \<^verbatim>\<open>True\<close>,
  which is the verdict to continue, not a terminal one; an evaluation loop that never
  finds holders runs all of its 60 iterations.
\<close>

theorem make_decision_no_data_counterexample:
  "make_decision example_library example_analyzer env_no_data 35 1 60 80 1000 100
     = Some (Some True, [At_second 3, No_top_holders_skipping])
   \<and> map_option iterations_completed
       (analyser example_library example_token_data 1000 no_data_world) = Some 60"
  by (simp add: make_decision_def env_no_data_def get_top_holders_def analyser_def
        no_data_world_iterations)

section \<open>Properties of the evaluation loop\<close>

lemma analyser_loop_shape:
  "analyser_loop L self envs t0 i n tr = Some out \<Longrightarrow>
   \<exists>suf. out = tr @ suf \<and> loop_shape (Suc i) suf \<and> length (completed suf) \<le> n"
proof (induction n arbitrary: i tr out)
  case 0
  then show ?case by simp
next
  case (Suc n)
  show ?case
  proof (cases "make_decision L self (envs i) 35 1 60 80 t0 100")
    case None
    with Suc.prems show ?thesis by simp
  next
    case (Some r)
    obtain p c where r: "r = (p, c)" by (cases r)
    show ?thesis
    proof (cases "p = Some True")
      case True
      with Suc.prems Some r have "analyser_loop L self envs t0 (Suc i) n
          (tr @ [Iteration_completed (Suc i) p c, Sleep 5]) = Some out" by simp
      from Suc.IH[OF this] obtain suf where
        o: "out = (tr @ [Iteration_completed (Suc i) p c, Sleep 5]) @ suf"
        and sh: "loop_shape (Suc (Suc i)) suf" and le: "length (completed suf) \<le> n" by blast
      have "out = tr @ (Iteration_completed (Suc i) p c # Sleep 5 # suf)" using o by simp
      moreover have "loop_shape (Suc i) (Iteration_completed (Suc i) p c # Sleep 5 # suf)"
        using True sh by simp
      moreover have "length (completed (Iteration_completed (Suc i) p c # Sleep 5 # suf)) \<le> Suc n"
        using le by simp
      ultimately show ?thesis by blast
    next
      case False
      with Suc.prems Some r have "out = tr @ [Iteration_completed (Suc i) p c]" by simp
      moreover have "loop_shape (Suc i) [Iteration_completed (Suc i) p c]" using False by simp
      moreover have "length (completed [Iteration_completed (Suc i) p c]) \<le> Suc n" by simp
      ultimately show ?thesis by blast
    qed
  qed
qed

lemma analyser_loop_returns:
  "(\<forall>j. i \<le> j \<and> j < i + n \<longrightarrow> make_decision L self (envs j) 35 1 60 80 t0 100 \<noteq> None) \<Longrightarrow>
   analyser_loop L self envs t0 i n tr \<noteq> None"
proof (induction n arbitrary: i tr)
  case 0
  show ?case by simp
next
  case (Suc n)
  from Suc.prems have here: "make_decision L self (envs i) 35 1 60 80 t0 100 \<noteq> None" by simp
  from Suc.prems have later:
    "\<forall>j. Suc i \<le> j \<and> j < Suc i + n \<longrightarrow> make_decision L self (envs j) 35 1 60 80 t0 100 \<noteq> None"
    by simp
  from here obtain p c where "make_decision L self (envs i) 35 1 60 80 t0 100 = Some (p, c)"
    by (cases "make_decision L self (envs i) 35 1 60 80 t0 100") auto
  with Suc.IH[OF later] show ?case by simp
qed

lemma pages_loop_returns:
  "pages q = Page_raises \<or> pages q = Page_no_result \<or> pages q = Page_accounts [] \<Longrightarrow> pg \<le> q \<Longrightarrow>
   pages_loop pages pg s tr \<noteq> None"
proof (induction "q - pg" arbitrary: pg s tr)
  case 0
  then have "pg = q" by simp
  with 0(2) show ?case by (subst pages_loop.simps) auto
next
  case (Suc d)
  show ?case
  proof (cases "pages pg")
    case (Page_accounts accs)
    show ?thesis
    proof (cases "accs = []")
      case True
      with Page_accounts show ?thesis by (subst pages_loop.simps) simp
    next
      case False
      from Suc(2) have "d = q - Suc pg" and "Suc pg \<le> q" by simp_all
      from Suc(1)[OF this(1) Suc(3) this(2)]
      have "pages_loop pages (Suc pg) (add_owners accs s)
              (tr @ [Page_request pg, Processing_page pg]) \<noteq> None" .
      with False Page_accounts show ?thesis by (subst pages_loop.simps) simp
    qed
  next
    case Page_raises
    then show ?thesis by (subst pages_loop.simps) simp
  next
    case Page_no_result
    then show ?thesis by (subst pages_loop.simps) simp
  qed
qed

lemma get_holder_count_returns: "listing_ends pages \<Longrightarrow> get_holder_count pages \<noteq> None"
  unfolding listing_ends_def get_holder_count_def using pages_loop_returns by blast

lemma and_then_returns_iff:
  "and_then m f \<noteq> None \<longleftrightarrow> m \<noteq> None \<and> (\<forall>x tr. m = Some (Inr x, tr) \<longrightarrow> f x \<noteq> None)"
  by (cases m) (auto simp: and_then_def split: sum.splits option.splits)

lemma returns_not_None [simp]: "returns p \<noteq> None"
  by (simp add: returns_def)

lemma check_holder_count_returns:
  "get_holder_count pages \<noteq> None \<Longrightarrow> check_holder_count pages threshold \<noteq> None"
  by (simp add: check_holder_count_def and_then_returns_iff del: not_None_eq)

lemma make_decision_returns:
  assumes "listing_ends (pages_display env)" "listing_ends (pages_gate env)"
    "listing_ends (pages_relaxed env)"
  shows "make_decision L self env holder_threshold dev_threshold lp_threshold_lower
           lp_threshold_upper startEpochTime timeLimit \<noteq> None"
proof -
  have d: "display_top_holders (pages_display env) 20 hs \<noteq> None" for hs
    using get_holder_count_returns[OF assms(1)]
    by (simp add: display_top_holders_def and_then_returns_iff del: not_None_eq)
  have g: "check_holder_count (pages_gate env) holder_threshold \<noteq> None"
    by (rule check_holder_count_returns[OF get_holder_count_returns[OF assms(2)]])
  have r: "special_conditions self env hs tm dv \<noteq> None" for hs tm dv
    using check_holder_count_returns[OF get_holder_count_returns[OF assms(3)], of 60]
    by (simp add: special_conditions_def and_then_returns_iff del: not_None_eq)
  have b: "decision_body self env hs holder_threshold dev_threshold lp_threshold_lower
           lp_threshold_upper startEpochTime timeLimit \<noteq> None" for hs
    unfolding decision_body_def
    by (simp add: and_then_returns_iff d g r del: and_then_returns and_then_Inr not_None_eq)
  show ?thesis
  proof (cases "decision_body self env (get_top_holders L self (largest env) (account_info env) 20)
           holder_threshold dev_threshold lp_threshold_lower lp_threshold_upper startEpochTime
           timeLimit")
    case None
    with b show ?thesis by blast
  next
    case (Some r)
    then show ?thesis
      by (simp add: make_decision_def Let_def split: sum.splits prod.splits)
  qed
qed

lemma analyser_loop_numeral:
  "analyser_loop L self envs t0 i (numeral k) tr =
     (case make_decision L self (envs i) 35 1 60 80 t0 100 of
        None \<Rightarrow> None
      | Some (proceed, cycle) \<Rightarrow>
          if proceed = Some True
          then analyser_loop L self envs t0 (i + 1) (pred_numeral k)
                 (tr @ [Iteration_completed (i + 1) proceed cycle, Sleep 5])
          else Some (tr @ [Iteration_completed (i + 1) proceed cycle]))"
  by (simp add: numeral_eq_Suc)

lemma listing_ends_examples:
  "listing_ends example_pages" "listing_ends example_pages_raising"
  unfolding listing_ends_def
  by (rule exI[of _ 3], simp add: example_pages_def example_pages_raising_def)+

lemma example_world_run:
  "map_option completed (analyser example_library example_token_data 1000 example_world)
     = Some [(1, Some True), (2, Some True), (3, None)]"
proof -
  have a: "make_decision example_library example_analyzer env_no_data 35 1 60 80 1000 100
      = Some (Some True, [At_second 3, No_top_holders_skipping])"
    by (simp add: make_decision_def env_no_data_def get_top_holders_def)
  have "map_option fst (make_decision example_library example_analyzer env_gate_raises
          35 1 60 80 1000 100) = Some None"
    by (simp add: make_decision_def Let_def decision_body_def display_top_holders_def returns_def
          check_holder_count_def env_gate_raises_def example_get_top_holders example_snapshot_def
          example_pages_count example_pages_raising_count)
  then obtain c where b: "make_decision example_library example_analyzer env_gate_raises
          35 1 60 80 1000 100 = Some (None, c)" by auto
  show ?thesis
    by (simp add: analyser_def example_token_data_def example_analyzer_def[symmetric]
          analyser_loop_numeral example_world_def a b completed_append)
qed

lemma get_holder_count_endless: "get_holder_count endless_pages = None"
proof (cases "get_holder_count endless_pages")
  case (Some r)
  then have "pages_loop endless_pages 1 {} [] = Some r" by (simp add: get_holder_count_def)
  from pages_loop_stops[OF this] show ?thesis by (simp add: endless_pages_def)
qed simp

section \<open>The order of the verdicts\<close>

lemma requested_dev_wallet_loop: "requested (snd (dev_wallet_loop dev threshold hs)) = []"
  by (induction hs) simp_all

lemma requested_lp_liquidity_loop: "requested (snd (lp_liquidity_loop bc lo up hs)) = []"
  by (induction hs) simp_all

lemma requested_check_dev_wallet_sold [simp]:
  "requested (snd (check_dev_wallet_sold self threshold hs)) = []"
  by (simp add: check_dev_wallet_sold_def requested_dev_wallet_loop)

lemma requested_check_lp_liquidity [simp]:
  "requested (snd (check_lp_liquidity self lo up hs)) = []"
  by (simp add: check_lp_liquidity_def requested_lp_liquidity_loop)

lemma crowd_count:
  assumes "0 < n"
  shows "get_holder_count (crowd n)
           = Some (Inr n, [Page_request 1, Processing_page 1, Page_request 2, No_more_results 1])"
proof -
  have inj: "inj_on (\<lambda>k. replicate k CHR ''w'') {0 ..< n}"
    by (rule inj_onI) (metis length_replicate)
  have c: "card ((\<lambda>k. replicate k CHR ''w'') ` {0 ..< n}) = n"
    by (simp only: card_image[OF inj] card_atLeastLessThan diff_zero)
  have "get_holder_count (crowd n) =
         pages_loop (crowd n) (Suc (length [map (\<lambda>k. \<lparr>account = replicate k CHR ''a'',
                    owner = replicate k CHR ''w''\<rparr>) [0 ..< n]]))
           (owner ` (\<Union> (set (map set [map (\<lambda>k. \<lparr>account = replicate k CHR ''a'',
                    owner = replicate k CHR ''w''\<rparr>) [0 ..< n]]))))
           (processing 1 (length [map (\<lambda>k. \<lparr>account = replicate k CHR ''a'',
                    owner = replicate k CHR ''w''\<rparr>) [0 ..< n]]))"
    by (rule get_holder_count_prefix) (use assms in \<open>simp_all add: crowd_def\<close>)
  also have "\<dots> = Some (Inr n, [Page_request 1, Processing_page 1, Page_request 2, No_more_results 1])"
    by (subst pages_loop_stop_empty) (simp_all add: crowd_def image_image c)
  finally show ?thesis .
qed

lemma cleared_get_top_holders:
  "get_top_holders example_library example_analyzer (Largest_value cleared_largest_accounts)
     example_info 20 = cleared_snapshot"
  by (simp add: get_top_holders_def total_supply_def CONVERT_TO_OWNER_WALLET_ADDRESSES_def
        cleared_largest_accounts_def get_owner_wallet_def example_info_def
        SPL_TOKEN_PROGRAM_ID_def token_record_def example_library_def example_b58_def
        example_percentage_def example_analyzer_def HolderCountAnalyzer_def pubkey_str_def
        cleared_snapshot_def)

text \<open>
  C2. Take an iteration whose snapshot \<open>hs\<close> is not empty and whose holder listings
  return counts: \<open>n1\<close> for the gate of line 308 and \<open>n2\<close> for the gate of line 317. The
  value that \<^verbatim>\<open>make_decision\<close> returns and the last line it prints follow this order: if
  the primary gates all hold, \<^verbatim>\<open>False\<close> with "All conditions met", and then the relaxed
  rule is not reached: the result does not depend on the listing of line 317, and the
  only pages requested are those of the first two listings; otherwise, if the relaxed
  rule holds (60 holders or more, liquidity in (60, 80], time within budget, creator not
  exited), \<^verbatim>\<open>False\<close> with "Special conditions met"; otherwise, if a record of the
  bonding curve is at 99 percent or more, \<^verbatim>\<open>False\<close> with the exhaustion line;
  otherwise, if the time budget is exceeded, \<^verbatim>\<open>False\<close> with the timeout line; otherwise
  \<^verbatim>\<open>True\<close>, the verdict to continue.
\<close>

theorem make_decision_verdict_order:
  fixes L :: library and self :: analyzer and env :: iteration_env and hs :: "holder list"
    and holder_threshold dev_threshold lp_threshold_lower lp_threshold_upper :: int
    and startEpochTime timeLimit :: int and n0 n1 n2 :: nat
  assumes snap: "get_top_holders L self (largest env) (account_info env) 20 = hs" and ne: "hs \<noteq> []"
    and d: "get_holder_count (pages_display env) = Some (Inr n0, t0)"
    and g: "get_holder_count (pages_gate env) = Some (Inr n1, t1)"
    and r: "get_holder_count (pages_relaxed env) = Some (Inr n2, t2)"
  defines "time_met \<equiv> now_check env - startEpochTime \<le> timeLimit"
    and "dev_wallet_sold \<equiv> fst (check_dev_wallet_sold self dev_threshold hs)"
  defines "primary \<equiv> int n1 \<ge> holder_threshold \<and> dev_wallet_sold
                      \<and> fst (check_lp_liquidity self lp_threshold_lower lp_threshold_upper hs)
                      \<and> time_met"
    and "relaxed \<equiv> int n2 \<ge> 60 \<and> fst (check_lp_liquidity self 60 80 hs) \<and> time_met
                      \<and> \<not> dev_wallet_sold"
    and "exhausted \<equiv> \<exists>h \<in> set hs. address h = pubkey_str (bonding_curve_pubkey self)
                                    \<and> percentage h \<ge> 99"
  shows "map_option (\<lambda>r. (fst r, last (snd r)))
           (make_decision L self env holder_threshold dev_threshold lp_threshold_lower
              lp_threshold_upper startEpochTime timeLimit)
         = Some (if primary then (Some False, All_conditions_met)
                 else if relaxed then (Some False, Special_conditions_met)
                 else if exhausted then (Some False, No_holders_left_exiting)
                 else if \<not> time_met then (Some False, Time_exceeded_exiting)
                 else (Some True, Conditions_not_met))
       \<and> (primary \<longrightarrow>
            (\<forall>pages. make_decision L self (env\<lparr>pages_relaxed := pages\<rparr>) holder_threshold
                       dev_threshold lp_threshold_lower lp_threshold_upper startEpochTime timeLimit
                     = make_decision L self env holder_threshold dev_threshold lp_threshold_lower
                         lp_threshold_upper startEpochTime timeLimit)
            \<and> map_option (\<lambda>r. requested (snd r))
                 (make_decision L self env holder_threshold dev_threshold lp_threshold_lower
                    lp_threshold_upper startEpochTime timeLimit)
               = Some (requested t0 @ requested t1))"
proof -
  note defs = make_decision_def Let_def decision_body_def display_top_holders_def
    check_holder_count_def special_conditions_def forced_exits_def returns_def
    check_time_limit_def bonding_curve_loop_iff
  have verdict: "map_option (\<lambda>r. (fst r, last (snd r)))
           (make_decision L self env holder_threshold dev_threshold lp_threshold_lower
              lp_threshold_upper startEpochTime timeLimit)
         = Some (if primary then (Some False, All_conditions_met)
                 else if relaxed then (Some False, Special_conditions_met)
                 else if exhausted then (Some False, No_holders_left_exiting)
                 else if \<not> time_met then (Some False, Time_exceeded_exiting)
                 else (Some True, Conditions_not_met))"
  proof (cases primary)
    case True
    then show ?thesis
      using ne unfolding primary_def time_met_def dev_wallet_sold_def
      by (simp add: defs snap d g)
  next
    case np: False
    show ?thesis
    proof (cases relaxed)
      case True
      with np show ?thesis
        using ne unfolding primary_def relaxed_def time_met_def dev_wallet_sold_def
        by (auto simp: defs snap d g r)
    next
      case nr: False
      show ?thesis
      proof (cases "int n2 \<ge> 60")
        case True
        with np nr show ?thesis
          using ne unfolding primary_def relaxed_def exhausted_def time_met_def dev_wallet_sold_def
          by (auto simp: defs snap d g r)
      next
        case False
        with np nr show ?thesis
          using ne unfolding primary_def relaxed_def exhausted_def time_met_def dev_wallet_sold_def
          by (auto simp: defs snap d g r)
      qed
    qed
  qed
  have indep: "make_decision L self (env\<lparr>pages_relaxed := pages\<rparr>) holder_threshold
                       dev_threshold lp_threshold_lower lp_threshold_upper startEpochTime timeLimit
                     = make_decision L self env holder_threshold dev_threshold lp_threshold_lower
                         lp_threshold_upper startEpochTime timeLimit" if primary for pages
    using that ne unfolding primary_def time_met_def dev_wallet_sold_def
    by (simp add: defs snap d g)
  have reqs: "map_option (\<lambda>r. requested (snd r))
                 (make_decision L self env holder_threshold dev_threshold lp_threshold_lower
                    lp_threshold_upper startEpochTime timeLimit)
               = Some (requested t0 @ requested t1)" if primary
    using that ne unfolding primary_def time_met_def dev_wallet_sold_def
    by (simp add: defs snap d g requested_append)
  from verdict indep reqs show ?thesis by blast
qed

theorem make_decision_verdict_order_witness:
  "map_option (\<lambda>r. (fst r, last (snd r)))
     (make_decision example_library example_analyzer env_cleared 35 1 60 80 1000 100)
     = Some (Some False, All_conditions_met)
   \<and> map_option (\<lambda>r. requested (snd r))
     (make_decision example_library example_analyzer env_cleared 35 1 60 80 1000 100)
     = Some [1, 2, 1, 2]
   \<and> map_option (\<lambda>r. (fst r, last (snd r)))
     (make_decision example_library example_analyzer env_special 35 1 60 80 1000 100)
     = Some (Some False, Special_conditions_met)
   \<and> map_option (\<lambda>r. (fst r, last (snd r)))
     (make_decision example_library example_analyzer env_waiting 35 1 60 80 1000 100)
     = Some (Some True, Conditions_not_met)"
proof -
  note gates = check_dev_wallet_sold_def check_lp_liquidity_def cleared_snapshot_def
    example_snapshot_def example_analyzer_def HolderCountAnalyzer_def pubkey_str_def
  have a: "map_option (\<lambda>r. (fst r, last (snd r)))
     (make_decision example_library example_analyzer env_cleared 35 1 60 80 1000 100)
     = Some (Some False, All_conditions_met)
     \<and> map_option (\<lambda>r. requested (snd r))
     (make_decision example_library example_analyzer env_cleared 35 1 60 80 1000 100)
     = Some [1, 2, 1, 2]"
    using make_decision_verdict_order[where L = example_library and self = example_analyzer
        and env = env_cleared and hs = cleared_snapshot and ?n0.0 = 40 and ?n1.0 = 40 and ?n2.0 = 40
        and ?t0.0 = "[Page_request 1, Processing_page 1, Page_request 2, No_more_results 1]"
        and ?t1.0 = "[Page_request 1, Processing_page 1, Page_request 2, No_more_results 1]"
        and ?t2.0 = "[Page_request 1, Processing_page 1, Page_request 2, No_more_results 1]"
        and holder_threshold = 35 and dev_threshold = 1 and lp_threshold_lower = 60
        and lp_threshold_upper = 80 and startEpochTime = 1000 and timeLimit = 100]
    by (simp add: env_cleared_def cleared_get_top_holders crowd_count)
       (simp add: gates env_cleared_def)
  have b: "map_option (\<lambda>r. (fst r, last (snd r)))
     (make_decision example_library example_analyzer env_special 35 1 60 80 1000 100)
     = Some (Some False, Special_conditions_met)"
    using make_decision_verdict_order[where L = example_library and self = example_analyzer
        and env = env_special and hs = example_snapshot and ?n0.0 = 60 and ?n1.0 = 60 and ?n2.0 = 60
        and ?t0.0 = "[Page_request 1, Processing_page 1, Page_request 2, No_more_results 1]"
        and ?t1.0 = "[Page_request 1, Processing_page 1, Page_request 2, No_more_results 1]"
        and ?t2.0 = "[Page_request 1, Processing_page 1, Page_request 2, No_more_results 1]"
        and holder_threshold = 35 and dev_threshold = 1 and lp_threshold_lower = 60
        and lp_threshold_upper = 80 and startEpochTime = 1000 and timeLimit = 100]
    by (simp add: env_special_def example_get_top_holders crowd_count)
       (simp add: gates env_special_def)
  have c: "map_option (\<lambda>r. (fst r, last (snd r)))
     (make_decision example_library example_analyzer env_waiting 35 1 60 80 1000 100)
     = Some (Some True, Conditions_not_met)"
    using make_decision_verdict_order[where L = example_library and self = example_analyzer
        and env = env_waiting and hs = example_snapshot and ?n0.0 = 40 and ?n1.0 = 40 and ?n2.0 = 40
        and ?t0.0 = "[Page_request 1, Processing_page 1, Page_request 2, No_more_results 1]"
        and ?t1.0 = "[Page_request 1, Processing_page 1, Page_request 2, No_more_results 1]"
        and ?t2.0 = "[Page_request 1, Processing_page 1, Page_request 2, No_more_results 1]"
        and holder_threshold = 35 and dev_threshold = 1 and lp_threshold_lower = 60
        and lp_threshold_upper = 80 and startEpochTime = 1000 and timeLimit = 100]
    by (simp add: env_waiting_def example_get_top_holders crowd_count)
       (simp add: gates env_waiting_def)
  from a b c show ?thesis by simp
qed

section \<open>Exceptions in a decision cycle\<close>

lemma listing_result_cases:
  obtains "get_holder_count pages = None" "listing_result pages = None"
  | t where "get_holder_count pages = Some (Inl Page_error, t)"
      "listing_result pages = Some (Inl Page_error)"
  | n t where "get_holder_count pages = Some (Inr n, t)" "listing_result pages = Some (Inr n)"
proof (cases "get_holder_count pages")
  case None
  then show ?thesis using that(1) by (simp add: listing_result_def)
next
  case (Some r)
  obtain x t where r: "r = (x, t)" by (cases r)
  show ?thesis
  proof (cases x)
    case (Inl e)
    then have "x = Inl Page_error" by (cases e) simp
    with Some r show ?thesis using that(2) by (simp add: listing_result_def)
  next
    case (Inr n)
    with Some r show ?thesis using that(3) by (simp add: listing_result_def)
  qed
qed

lemma make_decision_None_iff:
  assumes snap: "get_top_holders L self (largest env) (account_info env) 20 = hs"
  shows "map_option fst (make_decision L self env holder_threshold dev_threshold
           lp_threshold_lower lp_threshold_upper startEpochTime timeLimit) = Some None
     \<longleftrightarrow> hs \<noteq> []
         \<and> (listing_result (pages_display env) = Some (Inl Page_error)
            \<or> (\<exists>n0. listing_result (pages_display env) = Some (Inr n0))
              \<and> (listing_result (pages_gate env) = Some (Inl Page_error)
                 \<or> (\<exists>n1. listing_result (pages_gate env) = Some (Inr n1)
                       \<and> \<not> (int n1 \<ge> holder_threshold
                            \<and> fst (check_dev_wallet_sold self dev_threshold hs)
                            \<and> fst (check_lp_liquidity self lp_threshold_lower
                                      lp_threshold_upper hs)
                            \<and> now_check env - startEpochTime \<le> timeLimit)
                       \<and> listing_result (pages_relaxed env) = Some (Inl Page_error))))"
proof (cases "hs = []")
  case True
  with snap show ?thesis by (simp add: make_decision_def)
next
  case ne: False
  note defs = make_decision_def Let_def decision_body_def display_top_holders_def
    check_holder_count_def special_conditions_def forced_exits_def returns_def
    check_time_limit_def
  show ?thesis
  proof (cases rule: listing_result_cases[of "pages_display env"])
    case 1
    with ne show ?thesis by (simp add: defs snap)
  next
    case (2 t)
    with ne show ?thesis by (simp add: defs snap)
  next
    case d: (3 n0 t0)
    show ?thesis
    proof (cases rule: listing_result_cases[of "pages_gate env"])
      case 1
      with ne d show ?thesis by (simp add: defs snap)
    next
      case (2 t)
      with ne d show ?thesis by (simp add: defs snap)
    next
      case g: (3 n1 t1)
      show ?thesis
      proof (cases rule: listing_result_cases[of "pages_relaxed env"])
        case 1
        with ne d g show ?thesis by (auto simp: defs snap)
      next
        case (2 t)
        with ne d g show ?thesis by (auto simp: defs snap)
      next
        case (3 n2 t2)
        with ne d g show ?thesis by (auto simp: defs snap)
      qed
    qed
  qed
qed

lemma compile_holders_no_owner:
  "compile_holders L self idx (zip as (map (\<lambda>a. None) as)) = []"
  by (induction as arbitrary: idx) simp_all

lemma get_top_holders_swallows:
  "response = Largest_raises \<or> (\<forall>a. info a = Info_raises) \<Longrightarrow>
   get_top_holders L self response info top_n = []"
  by (cases response)
     (auto simp: get_top_holders_def Let_def get_owner_wallet_def compile_holders_no_owner
        CONVERT_TO_OWNER_WALLET_ADDRESSES_def)

lemma empty_snapshots_iterations:
  assumes "\<forall>j. get_top_holders L self (largest (envs j)) (account_info (envs j)) 20 = []"
  shows "map_option iterations_completed (analyser_loop L self envs currentEpochTime i n tr)
           = Some (length (completed tr) + n)"
proof (induction n arbitrary: i tr)
  case 0
  show ?case by (simp add: iterations_completed_def)
next
  case (Suc n)
  have "make_decision L self (envs i) 35 1 60 80 currentEpochTime 100
      = Some (Some True, [At_second (now_print (envs i) - currentEpochTime), No_top_holders_skipping])"
    using assms by (simp add: make_decision_def)
  then have "analyser_loop L self envs currentEpochTime i (Suc n) tr
      = analyser_loop L self envs currentEpochTime (Suc i) n
          (tr @ [Iteration_completed (Suc i) (Some True)
                   [At_second (now_print (envs i) - currentEpochTime), No_top_holders_skipping],
                 Sleep 5])"
    by simp
  then show ?case
    by (simp only: Suc.IH) (simp add: completed_append)
qed

lemma listing_raises_after_pages:
  assumes "\<forall>i < length ps. pages (Suc i) = Page_accounts (ps ! i)"
      and "\<forall>accs \<in> set ps. accs \<noteq> []"
      and "pages (Suc (length ps)) = Page_raises"
  shows "get_holder_count pages
           = Some (Inl Page_error, processing 1 (length ps) @ [Page_request (Suc (length ps))])"
  by (simp add: get_holder_count_prefix[OF assms(1,2)]
        pages_loop_stop_raises[where pages = pages and pg = "Suc (length ps)", OF assms(3)])

lemma example_listing_results:
  "listing_result example_pages = Some (Inr 2)"
  "listing_result example_pages_raising = Some (Inl Page_error)"
  by (simp_all add: listing_result_def example_pages_count example_pages_raising_count)

text \<open>
  C6: what the code does where the claim expects 0. An execution of
  \<^verbatim>\<open>get_holder_count\<close> in which a page request raises has listed some non-empty pages
  \<open>ps\<close> before (possibly none). The exception is not turned into 0: it leaves
  \<^verbatim>\<open>get_holder_count\<close>, and it leaves its two callers \<^verbatim>\<open>check_holder_count\<close> and
  \<^verbatim>\<open>display_top_holders\<close> as well. At each of the three places where a decision cycle
  lists the holders (lines 236, 308 and 317) it reaches the handler of line 337, and
  the cycle returns \<^verbatim>\<open>None\<close>.
\<close>

theorem get_holder_count_exception_propagates:
  assumes "\<forall>i < length ps. pages (Suc i) = Page_accounts (ps ! i)"
      and "\<forall>accs \<in> set ps. accs \<noteq> []"
      and "pages (Suc (length ps)) = Page_raises"
      and "get_top_holders L self (largest env) (account_info env) 20 = hs"
      and "hs \<noteq> []"
  shows "map_option fst (get_holder_count pages) = Some (Inl Page_error)
       \<and> map_option fst (check_holder_count pages threshold) = Some (Inl Page_error)
       \<and> map_option fst (display_top_holders pages top_n hs) = Some (Inl Page_error)
       \<and> (pages_display env = pages \<longrightarrow>
            map_option fst (make_decision L self env holder_threshold dev_threshold
              lp_threshold_lower lp_threshold_upper startEpochTime timeLimit) = Some None)
       \<and> (listing_result (pages_display env) = Some (Inr n0) \<and> pages_gate env = pages \<longrightarrow>
            map_option fst (make_decision L self env holder_threshold dev_threshold
              lp_threshold_lower lp_threshold_upper startEpochTime timeLimit) = Some None)
       \<and> (listing_result (pages_display env) = Some (Inr n0)
            \<and> listing_result (pages_gate env) = Some (Inr n1)
            \<and> \<not> (int n1 \<ge> holder_threshold
                 \<and> fst (check_dev_wallet_sold self dev_threshold hs)
                 \<and> fst (check_lp_liquidity self lp_threshold_lower lp_threshold_upper hs)
                 \<and> now_check env - startEpochTime \<le> timeLimit)
            \<and> pages_relaxed env = pages \<longrightarrow>
            map_option fst (make_decision L self env holder_threshold dev_threshold
              lp_threshold_lower lp_threshold_upper startEpochTime timeLimit) = Some None)"
proof -
  note g = listing_raises_after_pages[OF assms(1,2,3)]
  have l: "listing_result pages = Some (Inl Page_error)"
    by (simp add: listing_result_def g)
  have c: "map_option fst (check_holder_count pages threshold) = Some (Inl Page_error)"
    by (simp add: check_holder_count_def g)
  have d: "map_option fst (display_top_holders pages top_n hs) = Some (Inl Page_error)"
    using assms(5) by (simp add: display_top_holders_def g)
  note iff = make_decision_None_iff[OF assms(4), of holder_threshold dev_threshold
      lp_threshold_lower lp_threshold_upper startEpochTime timeLimit]
  from g c d l iff assms(5) show ?thesis by auto
qed

theorem get_holder_count_exception_propagates_witness:
  "map_option fst (get_holder_count example_pages_raising) = Some (Inl Page_error)
   \<and> map_option fst (check_holder_count example_pages_raising 35) = Some (Inl Page_error)
   \<and> map_option fst (display_top_holders example_pages_raising 20 example_snapshot)
       = Some (Inl Page_error)
   \<and> map_option fst (make_decision example_library example_analyzer env_display_raises
        35 1 60 80 1000 100) = Some None
   \<and> map_option fst (make_decision example_library example_analyzer env_gate_raises
        35 1 60 80 1000 100) = Some None
   \<and> map_option fst (make_decision example_library example_analyzer env_relaxed_raises
        35 1 60 80 1000 100) = Some None"
proof -
  have p: "\<forall>i < length example_accounts. example_pages_raising (Suc i) = Page_accounts (example_accounts ! i)"
    "\<forall>accs \<in> set example_accounts. accs \<noteq> []"
    "example_pages_raising (Suc (length example_accounts)) = Page_raises"
    by (simp_all add: example_accounts_def example_pages_raising_def less_Suc_eq)
  have ne: "example_snapshot \<noteq> []" by (simp add: example_snapshot_def)
  have a: "get_top_holders example_library example_analyzer (largest env_display_raises)
             (account_info env_display_raises) 20 = example_snapshot"
    by (simp add: env_display_raises_def example_get_top_holders)
  have b: "get_top_holders example_library example_analyzer (largest env_gate_raises)
             (account_info env_gate_raises) 20 = example_snapshot"
    by (simp add: env_gate_raises_def example_get_top_holders)
  have c: "get_top_holders example_library example_analyzer (largest env_relaxed_raises)
             (account_info env_relaxed_raises) 20 = example_snapshot"
    by (simp add: env_relaxed_raises_def example_get_top_holders)
  from get_holder_count_exception_propagates[OF p a ne, of 35 20 35 1 60 80 1000 100]
  have 1: "map_option fst (get_holder_count example_pages_raising) = Some (Inl Page_error)
     \<and> map_option fst (check_holder_count example_pages_raising 35) = Some (Inl Page_error)
     \<and> map_option fst (display_top_holders example_pages_raising 20 example_snapshot)
         = Some (Inl Page_error)
     \<and> map_option fst (make_decision example_library example_analyzer env_display_raises
          35 1 60 80 1000 100) = Some None"
    by (simp add: env_display_raises_def)
  from get_holder_count_exception_propagates[OF p b ne, of 35 20 35 1 60 80 1000 100 2]
  have 2: "map_option fst (make_decision example_library example_analyzer env_gate_raises
          35 1 60 80 1000 100) = Some None"
    by (simp add: env_gate_raises_def example_listing_results)
  from get_holder_count_exception_propagates[OF p c ne, of 35 20 35 1 60 80 1000 100 2 2]
  have 3: "map_option fst (make_decision example_library example_analyzer env_relaxed_raises
          35 1 60 80 1000 100) = Some None"
    by (simp add: env_relaxed_raises_def example_listing_results)
  from 1 2 3 show ?thesis by simp
qed

section \<open>Bounds of the evaluation loop\<close>




end
